theory Spec2Isabelle
  imports Complex_Main
begin

section \<open>Data model of the adaptive multi-vertex finder\<close>

text \<open>
  The finder of \<^verbatim>\<open>AdaptiveMultiVertexFinder.ipp\<close> handles tracks and vertices through
  pointers: a track is a \<^verbatim>\<open>const InputTrack_t*\<close>, a vertex a \<^verbatim>\<open>Vertex<InputTrack_t>*\<close>,
  and both are compared by address. The model keeps the addresses (natural numbers) and
  a store that maps a vertex address to the vertex it holds.

  A \<^verbatim>\<open>double\<close> is the real number that a finite double stands for, so the comparisons
  of the source are the comparisons of these numbers. Its arithmetic is not the exact
  one: a sum, difference, product, quotient, square or square root of doubles is rounded,
  and may underflow. The model takes these operations as parameters (below, with the
  collaborators), so that what is proved holds for whatever they return. A square root of
  a negative number is not a number, which is \<open>None\<close>; other values that are not
  numbers, and infinities, are not represented. \<^verbatim>\<open>std::abs\<close> is exact.
  The fixed-size Eigen vectors and matrices are functions from indices. The two \<^verbatim>\<open>int\<close>
  counters of the source are integers: the count of compatible tracks stops at 2 and
  the iteration counter stays below \<^verbatim>\<open>maxIterations\<close>, so neither overflows.

  Modelled from the spec: the classes \<^verbatim>\<open>Vertex\<close>, \<^verbatim>\<open>TrackAtVertex\<close>, \<^verbatim>\<open>VertexInfo\<close>, the
  fitter state, the configuration and the vertexing options are declared in headers
  that are not part of this file. Their records below have the members that the data
  model of the specification lists and that the finder reads or writes.
\<close>

type_synonym InputTrack = nat
type_synonym VertexPtr = nat
type_synonym Vector3 = "nat \<Rightarrow> real"
type_synonym Vector4 = "nat \<Rightarrow> real"
type_synonym SquareMatrix3 = "nat \<Rightarrow> nat \<Rightarrow> real"
type_synonym SquareMatrix4 = "nat \<Rightarrow> nat \<Rightarrow> real"

text \<open>
  Modelled from the spec: the index \<^verbatim>\<open>eZ\<close> of the z coordinate in a position
  \<open>(x, y, z, t)\<close>.
\<close>

definition eZ :: nat where
  "eZ = 2"

text \<open>
  The errors a call can end with: the finder's own \<^verbatim>\<open>VertexingError::EmptyInput\<close>, an
  error handed back by a collaborator (seed finder, fitter, impact parameter estimator,
  fitter state), and the exceptions of the standard library calls the source makes:
  \<^verbatim>\<open>std::map::at\<close> on a missing key, \<^verbatim>\<open>std::optional::value\<close> on an empty optional.
  \<^verbatim>\<open>std::vector::back\<close> on an empty vector has no defined behaviour; the model gives
  it a branch of its own. \<open>NoReturn\<close> is a call that never returns.
\<close>

datatype error =
    EmptyInput
  | CollaboratorError nat
  | OutOfRange
  | BadOptionalAccess
  | BackOfEmptyVector
  | NoReturn

record TrackAtVertex =
  trackWeight :: real
  chi2Track :: real
  vertexCompatibility :: real
  isLinearized :: bool

record Vertex =
  fullPosition :: Vector4
  fullCovariance :: SquareMatrix4
  fitQuality :: "real \<times> real"
  tracksAtVertex :: "TrackAtVertex list"

text \<open>
  Modelled from the spec: \<^verbatim>\<open>Vertex::position()\<close>, the three space coordinates of the full
  position.
\<close>

definition position :: "Vertex \<Rightarrow> Vector3" where
  "position v = fullPosition v"

record VertexInfo =
  infoConstraint :: Vertex
  seedPosition :: Vector4
  trackLinks :: "InputTrack list"

text \<open>
  \<^verbatim>\<open>vtxInfoMap\<close> is only ever read with \<^verbatim>\<open>operator[]\<close>, which creates a
  default entry (no track links) for a key that is absent: a total function.
  \<^verbatim>\<open>tracksAtVerticesMap\<close> is read with \<^verbatim>\<open>at\<close>, which throws on a missing key: a
  partial map.
\<close>

record FitterState =
  vtxInfoMap :: "VertexPtr \<Rightarrow> VertexInfo"
  tracksAtVerticesMap :: "InputTrack \<times> VertexPtr \<rightharpoonup> TrackAtVertex"
  vertexCollection :: "VertexPtr list"
  trackToVerticesMultiMap :: "(InputTrack \<times> VertexPtr) list"

record Config =
  maxIterations :: int
  addSingleTrackVertices :: bool
  doRealMultiVertex :: bool
  useSeedConstraint :: bool
  useVertexCovForIPEstimation :: bool
  useTime :: bool
  tracksMaxZinterval :: real
  tracksMaxSignificance :: real
  maxVertexChi2 :: real
  useFastCompatibility :: bool
  minWeight :: real
  maximumVertexContamination :: real
  do3dSplitting :: bool
  maxMergeVertexSignificance :: real
  looseConstrValue :: real
  defaultConstrFitQuality :: "real \<times> real"

definition map_at :: "('k \<rightharpoonup> 'v) \<Rightarrow> 'k \<Rightarrow> error + 'v" where
  "map_at m k = (case m k of None \<Rightarrow> Inl OutOfRange | Some v \<Rightarrow> Inr v)"

section \<open>Compatibility evaluation\<close>

text \<open>
  The condition that \<^verbatim>\<open>checkVertexAndCompatibleTracks\<close> and
  \<^verbatim>\<open>removeCompatibleTracksFromSeedTracks\<close> both write out on a track at a vertex.
\<close>

definition isCompatible :: "Config \<Rightarrow> TrackAtVertex \<Rightarrow> bool" where
  "isCompatible cfg trkAtVtx =
     ((vertexCompatibility trkAtVtx < maxVertexChi2 cfg \<and> useFastCompatibility cfg) \<or>
      (trackWeight trkAtVtx > minWeight cfg \<and> chi2Track trkAtVtx < maxVertexChi2 cfg \<and>
       \<not> useFastCompatibility cfg))"

text \<open>
  The loop of \<^verbatim>\<open>checkVertexAndCompatibleTracks\<close> over the track links that are left,
  with the counter as it stands. Both \<^verbatim>\<open>break\<close>s leave with \<^verbatim>\<open>isGoodVertex = true\<close>;
  the end of the list leaves with \<^verbatim>\<open>false\<close>.
\<close>

fun checkLoop ::
  "Config \<Rightarrow> VertexPtr \<Rightarrow> InputTrack list \<Rightarrow> FitterState \<Rightarrow> bool \<Rightarrow>
   InputTrack list \<Rightarrow> int \<Rightarrow> error + (int \<times> bool)" where
  "checkLoop cfg vtx seedTracks fitterState useVertexConstraintInFit [] nCompatibleTracks =
     Inr (nCompatibleTracks, False)"
| "checkLoop cfg vtx seedTracks fitterState useVertexConstraintInFit (trk # rest) nCompatibleTracks =
     (case map_at (tracksAtVerticesMap fitterState) (trk, vtx) of
        Inl e \<Rightarrow> Inl e
      | Inr trkAtVtx \<Rightarrow>
          if isCompatible cfg trkAtVtx then
            if trk \<in> set seedTracks then
              if addSingleTrackVertices cfg \<and> useVertexConstraintInFit then
                Inr (nCompatibleTracks + 1, True)
              else if nCompatibleTracks + 1 > 1 then
                Inr (nCompatibleTracks + 1, True)
              else
                checkLoop cfg vtx seedTracks fitterState useVertexConstraintInFit rest
                  (nCompatibleTracks + 1)
            else
              checkLoop cfg vtx seedTracks fitterState useVertexConstraintInFit rest
                nCompatibleTracks
          else
            checkLoop cfg vtx seedTracks fitterState useVertexConstraintInFit rest
              nCompatibleTracks)"

definition checkVertexAndCompatibleTracks ::
  "Config \<Rightarrow> VertexPtr \<Rightarrow> InputTrack list \<Rightarrow> FitterState \<Rightarrow> bool \<Rightarrow> error + (int \<times> bool)" where
  "checkVertexAndCompatibleTracks cfg vtx seedTracks fitterState useVertexConstraintInFit =
     checkLoop cfg vtx seedTracks fitterState useVertexConstraintInFit
       (trackLinks (vtxInfoMap fitterState vtx)) 0"

text \<open>
  What the claims count: a track link of the vertex counts when its entry is classified
  compatible and the track is present in the seed tracks; \<open>compatibleSeedLinks\<close> are
  those links, over the whole list.
\<close>

definition countsAsCompatible ::
  "Config \<Rightarrow> VertexPtr \<Rightarrow> InputTrack list \<Rightarrow> FitterState \<Rightarrow> InputTrack \<Rightarrow> bool" where
  "countsAsCompatible cfg vtx seedTracks fitterState trk =
     ((case tracksAtVerticesMap fitterState (trk, vtx) of
         None \<Rightarrow> False
       | Some trkAtVtx \<Rightarrow> isCompatible cfg trkAtVtx) \<and> trk \<in> set seedTracks)"

definition compatibleSeedLinks ::
  "Config \<Rightarrow> VertexPtr \<Rightarrow> InputTrack list \<Rightarrow> FitterState \<Rightarrow> InputTrack list" where
  "compatibleSeedLinks cfg vtx seedTracks fitterState =
     filter (countsAsCompatible cfg vtx seedTracks fitterState)
       (trackLinks (vtxInfoMap fitterState vtx))"

text \<open>Every track link of the vertex has its entry in \<^verbatim>\<open>tracksAtVerticesMap\<close>.\<close>

definition linksHaveEntries :: "FitterState \<Rightarrow> VertexPtr \<Rightarrow> bool" where
  "linksHaveEntries fitterState vtx =
     list_all (\<lambda>trk. tracksAtVerticesMap fitterState (trk, vtx) \<noteq> None)
       (trackLinks (vtxInfoMap fitterState vtx))"

text \<open>
  The count at which the loop of \<^verbatim>\<open>checkVertexAndCompatibleTracks\<close> breaks: the first
  counted track when single-track vertices are allowed and the constraint is used in the
  fit, the second one otherwise.
\<close>

definition trackCap :: "Config \<Rightarrow> bool \<Rightarrow> int" where
  "trackCap cfg useVertexConstraintInFit =
     (if addSingleTrackVertices cfg \<and> useVertexConstraintInFit then 1 else 2)"

section \<open>Collaborators\<close>

text \<open>
  What the finder calls and this file does not define: the seed finder, the multi-vertex
  fitter, the impact parameter estimator, the parameter extractor, the methods and the
  constructor of the fitter state, the constructor of a track at a vertex,
  \<^verbatim>\<open>safeInverse\<close> of \<^verbatim>\<open>AlgebraHelpers.hpp\<close>, and the allocation behind
  \<^verbatim>\<open>std::make_unique\<close>. They are parameters of the model. The fitter reads and writes the
  fitter state and, through the pointers it holds, the vertices: it maps the pair of
  the vertex store and the fitter state to a new pair. \<open>trackPosition ext trk geoCtx\<close>
  stands for \<^verbatim>\<open>m_extractParameters(*trk).position(geoCtx)\<close>; \<open>safeInverse ext n m\<close> for
  \<^verbatim>\<open>safeInverse\<close> on an \<open>n\<close> by \<open>n\<close> matrix; \<open>allocVertex ext live\<close> is the address of a
  new vertex when the vertices at \<open>live\<close> are allocated.

  The arithmetic of doubles is a parameter with them: \<open>dadd\<close>, \<open>dsub\<close>, \<open>dmul\<close> and
  \<open>ddiv\<close> are \<^verbatim>\<open>+\<close>, \<^verbatim>\<open>-\<close>, \<^verbatim>\<open>*\<close> and \<^verbatim>\<open>/\<close> on doubles, \<open>dpow2 ext x\<close> is
  \<^verbatim>\<open>std::pow(x, 2)\<close>, \<open>dsqrt ext x\<close> is \<^verbatim>\<open>std::sqrt(x)\<close> for an \<open>x\<close> that is not negative, and
  \<open>eigenQuadForm ext n v m\<close> is Eigen's \<^verbatim>\<open>v.dot(m * v)\<close> in dimension \<open>n\<close>.
\<close>

type_synonym GeometryContext = nat
type_synonym MagneticFieldContext = nat
type_synonym Heap = "(VertexPtr \<Rightarrow> Vertex) \<times> FitterState"

record ImpactParametersAndSigma =
  d0 :: real
  z0 :: real
  sigmaD0 :: real
  sigmaZ0 :: real
  deltaT :: "real option"
  sigmaDeltaT :: "real option"

record VertexingOptions =
  constraint :: Vertex
  useConstraintInFit :: bool
  geoContext :: GeometryContext
  magFieldContext :: MagneticFieldContext

record 's Collaborators =
  safeInverse :: "nat \<Rightarrow> (nat \<Rightarrow> nat \<Rightarrow> real) \<Rightarrow> (nat \<Rightarrow> nat \<Rightarrow> real) option"
  trackPosition :: "InputTrack \<Rightarrow> GeometryContext \<Rightarrow> Vector3"
  newTrackAtVertex :: "InputTrack \<Rightarrow> TrackAtVertex"
  getImpactParameters ::
    "InputTrack \<Rightarrow> Vertex \<Rightarrow> GeometryContext \<Rightarrow> MagneticFieldContext \<Rightarrow> bool \<Rightarrow>
     error + ImpactParametersAndSigma"
  newSeedFinderState :: 's
  needsRemovedTracks :: bool
  setTracksToRemove :: "'s \<Rightarrow> InputTrack list \<Rightarrow> 's"
  seedFinder_find :: "InputTrack list \<Rightarrow> VertexingOptions \<Rightarrow> 's \<Rightarrow> (error + Vertex list) \<times> 's"
  newFitterState :: "MagneticFieldContext \<Rightarrow> FitterState"
  addVertexToMultiMap :: "FitterState \<Rightarrow> VertexPtr \<Rightarrow> FitterState"
  removeVertexFromMultiMap :: "FitterState \<Rightarrow> VertexPtr \<Rightarrow> FitterState"
  removeVertexFromCollection :: "FitterState \<Rightarrow> VertexPtr \<Rightarrow> error + FitterState"
  addVtxToFit :: "Heap \<Rightarrow> VertexPtr \<Rightarrow> VertexingOptions \<Rightarrow> error + Heap"
  fit :: "Heap \<Rightarrow> VertexingOptions \<Rightarrow> error + Heap"
  allocVertex :: "VertexPtr list \<Rightarrow> VertexPtr"
  dadd :: "real \<Rightarrow> real \<Rightarrow> real"
  dsub :: "real \<Rightarrow> real \<Rightarrow> real"
  dmul :: "real \<Rightarrow> real \<Rightarrow> real"
  ddiv :: "real \<Rightarrow> real \<Rightarrow> real"
  dpow2 :: "real \<Rightarrow> real"
  dsqrt :: "real \<Rightarrow> real"
  eigenQuadForm :: "nat \<Rightarrow> (nat \<Rightarrow> real) \<Rightarrow> (nat \<Rightarrow> nat \<Rightarrow> real) \<Rightarrow> real"

text \<open>
  Modelled from the spec: the constructor \<^verbatim>\<open>VertexInfo(constraint, pos)\<close>, which the spec
  describes as the constraint carried with the vertex and the seed position; the new
  entry has no track links yet.
\<close>

definition newVertexInfo :: "Vertex \<Rightarrow> Vector4 \<Rightarrow> VertexInfo" where
  "newVertexInfo c pos = \<lparr>infoConstraint = c, seedPosition = pos, trackLinks = []\<rparr>"

text \<open>\<^verbatim>\<open>std::numeric_limits<double>::max()\<close>, the largest finite double.\<close>

definition DBL_MAX :: real where
  "DBL_MAX = (2 ^ 53 - 1) * 2 ^ 971"

text \<open>
  \<^verbatim>\<open>std::sqrt\<close>: not a number on a negative argument, which is \<open>None\<close> here. A value
  that is not a number compares below nothing and above nothing.
\<close>

definition std_sqrt :: "'s Collaborators \<Rightarrow> real \<Rightarrow> real option" where
  "std_sqrt ext x = (if x < 0 then None else Some (dsqrt ext x))"

section \<open>Impact parameter significance\<close>

text \<open>
  \<^verbatim>\<open>getIPSignificance\<close>. The time term reads \<^verbatim>\<open>sigmaDeltaT.value()\<close> and then
  \<^verbatim>\<open>deltaT.value()\<close>, each of which throws on an empty optional. The significance is
  \<open>None\<close> when the square root is not a number.
\<close>

definition chi2TimeOf ::
  "'s Collaborators \<Rightarrow> Config \<Rightarrow> ImpactParametersAndSigma \<Rightarrow> error + real" where
  "chi2TimeOf ext cfg ipas =
     (if useTime cfg then
        (case sigmaDeltaT ipas of
           None \<Rightarrow> Inl BadOptionalAccess
         | Some sdt \<Rightarrow>
             if sdt > 0 then
               (case deltaT ipas of
                  None \<Rightarrow> Inl BadOptionalAccess
                | Some dt \<Rightarrow> Inr (dpow2 ext (ddiv ext dt sdt)))
             else Inr 0)
      else Inr 0)"

definition getIPSignificance ::
  "'s Collaborators \<Rightarrow> Config \<Rightarrow> InputTrack \<Rightarrow> Vertex \<Rightarrow> VertexingOptions \<Rightarrow>
   error + real option" where
  "getIPSignificance ext cfg track vtx vertexingOptions =
     (let newVtx = (if \<not> useVertexCovForIPEstimation cfg
                    then vtx\<lparr>fullCovariance := (\<lambda>i j. 0)\<rparr> else vtx)
      in case getImpactParameters ext track newVtx (geoContext vertexingOptions)
                (magFieldContext vertexingOptions) (useTime cfg) of
           Inl e \<Rightarrow> Inl e
         | Inr ipas \<Rightarrow>
             (case chi2TimeOf ext cfg ipas of
                Inl e \<Rightarrow> Inl e
              | Inr chi2Time \<Rightarrow>
                  Inr (if sigmaD0 ipas > 0 \<and> sigmaZ0 ipas > 0
                       then std_sqrt ext
                              (dadd ext
                                 (dadd ext (dpow2 ext (ddiv ext (d0 ipas) (sigmaD0 ipas)))
                                           (dpow2 ext (ddiv ext (z0 ipas) (sigmaZ0 ipas))))
                                 chi2Time)
                       else Some 0)))"

section \<open>Seed-set maintenance\<close>

text \<open>
  \<^verbatim>\<open>std::find_if\<close> over the seed tracks: the position of the first seed track equal to
  the track, \<open>None\<close> for the end iterator. \<open>eraseAt\<close> is \<^verbatim>\<open>erase\<close> at a position.
\<close>

fun findSeedIter :: "InputTrack \<Rightarrow> InputTrack list \<Rightarrow> nat option" where
  "findSeedIter trk [] = None"
| "findSeedIter trk (seedTrk # rest) =
     (if trk = seedTrk then Some 0 else map_option Suc (findSeedIter trk rest))"

definition eraseAt :: "nat \<Rightarrow> 'a list \<Rightarrow> 'a list" where
  "eraseAt i xs = take i xs @ drop (Suc i) xs"

text \<open>The loop of \<^verbatim>\<open>removeCompatibleTracksFromSeedTracks\<close> over the links left.\<close>

fun removeCompatibleLoop ::
  "Config \<Rightarrow> VertexPtr \<Rightarrow> FitterState \<Rightarrow> InputTrack list \<Rightarrow>
   InputTrack list \<times> InputTrack list \<Rightarrow> error + (InputTrack list \<times> InputTrack list)" where
  "removeCompatibleLoop cfg vtx fitterState [] (seedTracks, removedSeedTracks) =
     Inr (seedTracks, removedSeedTracks)"
| "removeCompatibleLoop cfg vtx fitterState (trk # rest) (seedTracks, removedSeedTracks) =
     (case map_at (tracksAtVerticesMap fitterState) (trk, vtx) of
        Inl e \<Rightarrow> Inl e
      | Inr trkAtVtx \<Rightarrow>
          if isCompatible cfg trkAtVtx then
            (case findSeedIter trk seedTracks of
               Some foundSeedIter \<Rightarrow>
                 removeCompatibleLoop cfg vtx fitterState rest
                   (eraseAt foundSeedIter seedTracks, removedSeedTracks @ [trk])
             | None \<Rightarrow>
                 removeCompatibleLoop cfg vtx fitterState rest (seedTracks, removedSeedTracks))
          else removeCompatibleLoop cfg vtx fitterState rest (seedTracks, removedSeedTracks))"

definition removeCompatibleTracksFromSeedTracks ::
  "Config \<Rightarrow> VertexPtr \<Rightarrow> InputTrack list \<Rightarrow> FitterState \<Rightarrow> InputTrack list \<Rightarrow>
   error + (InputTrack list \<times> InputTrack list)" where
  "removeCompatibleTracksFromSeedTracks cfg vtx seedTracks fitterState removedSeedTracks =
     removeCompatibleLoop cfg vtx fitterState (trackLinks (vtxInfoMap fitterState vtx))
       (seedTracks, removedSeedTracks)"

text \<open>
  The first loop of \<^verbatim>\<open>removeTrackIfIncompatible\<close>, over the links left. Its state is
  \<^verbatim>\<open>maxCompatibility\<close>, \<^verbatim>\<open>maxCompSeedIt\<close> (\<open>None\<close> for the end iterator) and
  \<^verbatim>\<open>removedTrack\<close>. The null pointer is the address 0.
\<close>

definition nullptr :: InputTrack where
  "nullptr = 0"

fun maxCompLoop ::
  "VertexPtr \<Rightarrow> InputTrack list \<Rightarrow> FitterState \<Rightarrow> InputTrack list \<Rightarrow>
   real \<times> nat option \<times> InputTrack \<Rightarrow> error + (real \<times> nat option \<times> InputTrack)" where
  "maxCompLoop vtx seedTracks fitterState [] acc = Inr acc"
| "maxCompLoop vtx seedTracks fitterState (trk # rest)
       (maxCompatibility, maxCompSeedIt, removedTrack) =
     (case map_at (tracksAtVerticesMap fitterState) (trk, vtx) of
        Inl e \<Rightarrow> Inl e
      | Inr trkAtVtx \<Rightarrow>
          (let compatibility = vertexCompatibility trkAtVtx
           in if compatibility > maxCompatibility then
                (case findSeedIter trk seedTracks of
                   Some foundSeedIter \<Rightarrow>
                     maxCompLoop vtx seedTracks fitterState rest
                       (compatibility, Some foundSeedIter, trk)
                 | None \<Rightarrow>
                     maxCompLoop vtx seedTracks fitterState rest
                       (maxCompatibility, maxCompSeedIt, removedTrack))
              else maxCompLoop vtx seedTracks fitterState rest
                     (maxCompatibility, maxCompSeedIt, removedTrack)))"

text \<open>
  The second loop, over the seed tracks from position \<open>i\<close> on, with
  \<^verbatim>\<open>smallestDeltaZ\<close>, \<^verbatim>\<open>smallestDzSeedIter\<close> and \<^verbatim>\<open>removedTrack\<close>.
\<close>

fun smallestDzLoop ::
  "'s Collaborators \<Rightarrow> GeometryContext \<Rightarrow> real \<Rightarrow> InputTrack list \<Rightarrow> nat \<Rightarrow>
   real \<times> nat option \<times> InputTrack \<Rightarrow> real \<times> nat option \<times> InputTrack" where
  "smallestDzLoop ext geoCtx vtxZ [] i acc = acc"
| "smallestDzLoop ext geoCtx vtxZ (seedTrk # rest) i
       (smallestDeltaZ, smallestDzSeedIter, removedTrack) =
     (let pos = trackPosition ext seedTrk geoCtx;
          zDistance = \<bar>dsub ext (pos eZ) vtxZ\<bar>
      in if zDistance < smallestDeltaZ then
           smallestDzLoop ext geoCtx vtxZ rest (Suc i) (zDistance, Some i, seedTrk)
         else
           smallestDzLoop ext geoCtx vtxZ rest (Suc i)
             (smallestDeltaZ, smallestDzSeedIter, removedTrack))"

text \<open>
  \<^verbatim>\<open>removeTrackIfIncompatible\<close>: the returned flag with the seed tracks and the removed
  seed tracks as it leaves them. The counter of the second loop is an
  \<^verbatim>\<open>unsigned int\<close> compared with the size of the vector: with \<open>2 ^ 32\<close> seed tracks or
  more it wraps around before it reaches the size and the loop never ends, which is
  the result \<open>NoReturn\<close>.
\<close>

definition removeTrackIfIncompatible ::
  "'s Collaborators \<Rightarrow> Vertex \<Rightarrow> VertexPtr \<Rightarrow> InputTrack list \<Rightarrow> FitterState \<Rightarrow>
   InputTrack list \<Rightarrow> GeometryContext \<Rightarrow> error + (bool \<times> InputTrack list \<times> InputTrack list)" where
  "removeTrackIfIncompatible ext vtxValue vtx seedTracks fitterState removedSeedTracks geoCtx =
     (case maxCompLoop vtx seedTracks fitterState (trackLinks (vtxInfoMap fitterState vtx))
             (0, None, nullptr) of
        Inl e \<Rightarrow> Inl e
      | Inr (maxCompatibility, maxCompSeedIt, removedTrack) \<Rightarrow>
          (case maxCompSeedIt of
             Some it \<Rightarrow> Inr (True, eraseAt it seedTracks, removedSeedTracks @ [removedTrack])
           | None \<Rightarrow>
               if length seedTracks \<ge> 2 ^ 32 then Inl NoReturn
               else
                 (case smallestDzLoop ext geoCtx (position vtxValue eZ) seedTracks 0
                         (DBL_MAX, None, removedTrack) of
                    (smallestDeltaZ, Some it, removedTrack') \<Rightarrow>
                      Inr (True, eraseAt it seedTracks, removedSeedTracks @ [removedTrack'])
                  | (smallestDeltaZ, None, removedTrack') \<Rightarrow>
                      Inr (False, seedTracks, removedSeedTracks))))"

section \<open>Acceptance: contamination and merging\<close>

text \<open>
  The body of the loop of \<^verbatim>\<open>isMergedVertex\<close> up to the comparison with the threshold:
  the significance of the candidate against another vertex. \<open>None\<close> is a pair that the
  loop passes over, by \<^verbatim>\<open>continue\<close> or because the square root is not a number, which
  compares below nothing. In the mode without 3D splitting the argument of the square
  root is positive.
\<close>

definition mergeSignificance ::
  "'s Collaborators \<Rightarrow> Config \<Rightarrow> Vertex \<Rightarrow> Vertex \<Rightarrow> real option" where
  "mergeSignificance ext cfg vtx otherVtx =
     (let candidatePos = fullPosition vtx; candidateCov = fullCovariance vtx;
          otherPos = fullPosition otherVtx; otherCov = fullCovariance otherVtx
      in if \<not> do3dSplitting cfg then
           (let deltaZPos = dsub ext (otherPos eZ) (candidatePos eZ);
                sumVarZ = dadd ext (otherCov eZ eZ) (candidateCov eZ eZ)
            in if sumVarZ \<le> 0 then None
               else
                 (case std_sqrt ext sumVarZ of
                    None \<Rightarrow> None
                  | Some sqrtSumVarZ \<Rightarrow> Some (ddiv ext \<bar>deltaZPos\<bar> sqrtSumVarZ)))
         else if useTime cfg then
           (let deltaPos = (\<lambda>i. dsub ext (otherPos i) (candidatePos i));
                sumCov = (\<lambda>i j. dadd ext (candidateCov i j) (otherCov i j))
            in case safeInverse ext 4 sumCov of
                 None \<Rightarrow> None
               | Some sumCovInverse \<Rightarrow>
                   std_sqrt ext (eigenQuadForm ext 4 deltaPos sumCovInverse))
         else
           (let deltaPos = (\<lambda>i. dsub ext (otherPos i) (candidatePos i));
                sumCov = (\<lambda>i j. dadd ext (candidateCov i j) (otherCov i j))
            in case safeInverse ext 3 sumCov of
                 None \<Rightarrow> None
               | Some sumCovInverse \<Rightarrow>
                   std_sqrt ext (eigenQuadForm ext 3 deltaPos sumCovInverse)))"

fun isMergedVertexLoop ::
  "'s Collaborators \<Rightarrow> Config \<Rightarrow> (VertexPtr \<Rightarrow> Vertex) \<Rightarrow> VertexPtr \<Rightarrow> VertexPtr list \<Rightarrow> bool" where
  "isMergedVertexLoop ext cfg vertices vtx [] = False"
| "isMergedVertexLoop ext cfg vertices vtx (otherVtx # rest) =
     (if vtx = otherVtx then isMergedVertexLoop ext cfg vertices vtx rest
      else
        (case mergeSignificance ext cfg (vertices vtx) (vertices otherVtx) of
           None \<Rightarrow> isMergedVertexLoop ext cfg vertices vtx rest
         | Some significance \<Rightarrow>
             if significance < maxMergeVertexSignificance cfg then True
             else isMergedVertexLoop ext cfg vertices vtx rest))"

definition isMergedVertex ::
  "'s Collaborators \<Rightarrow> Config \<Rightarrow> (VertexPtr \<Rightarrow> Vertex) \<Rightarrow> VertexPtr \<Rightarrow> VertexPtr list \<Rightarrow> bool" where
  "isMergedVertex ext cfg vertices vtx allVertices =
     isMergedVertexLoop ext cfg vertices vtx allVertices"

text \<open>
  The first half of \<^verbatim>\<open>keepNewVertex\<close>: the loop that sums \<^verbatim>\<open>contaminationNum\<close> and
  \<^verbatim>\<open>contaminationDeNom\<close>, and the guarded division.
\<close>

fun contaminationLoop ::
  "'s Collaborators \<Rightarrow> VertexPtr \<Rightarrow> FitterState \<Rightarrow> InputTrack list \<Rightarrow> real \<times> real \<Rightarrow>
   error + (real \<times> real)" where
  "contaminationLoop ext vtx fitterState [] acc = Inr acc"
| "contaminationLoop ext vtx fitterState (trk # rest) (contaminationNum, contaminationDeNom) =
     (case map_at (tracksAtVerticesMap fitterState) (trk, vtx) of
        Inl e \<Rightarrow> Inl e
      | Inr trkAtVtx \<Rightarrow>
          (let trackWeight = trackWeight trkAtVtx
           in contaminationLoop ext vtx fitterState rest
                (dadd ext contaminationNum (dmul ext trackWeight (dsub ext 1 trackWeight)),
                 dadd ext contaminationDeNom (dmul ext trackWeight trackWeight))))"

definition contamination :: "'s Collaborators \<Rightarrow> VertexPtr \<Rightarrow> FitterState \<Rightarrow> error + real" where
  "contamination ext vtx fitterState =
     (case contaminationLoop ext vtx fitterState (trackLinks (vtxInfoMap fitterState vtx))
             (0, 0) of
        Inl e \<Rightarrow> Inl e
      | Inr (contaminationNum, contaminationDeNom) \<Rightarrow>
          Inr (if contaminationDeNom \<noteq> 0 then ddiv ext contaminationNum contaminationDeNom
               else 0))"

definition keepNewVertex ::
  "'s Collaborators \<Rightarrow> Config \<Rightarrow> (VertexPtr \<Rightarrow> Vertex) \<Rightarrow> VertexPtr \<Rightarrow> VertexPtr list \<Rightarrow>
   FitterState \<Rightarrow> error + bool" where
  "keepNewVertex ext cfg vertices vtx allVertices fitterState =
     (case contamination ext vtx fitterState of
        Inl e \<Rightarrow> Inl e
      | Inr c \<Rightarrow>
          if c > maximumVertexContamination cfg then Inr False
          else if isMergedVertex ext cfg vertices vtx allVertices then Inr False
          else Inr True)"

section \<open>Quantities the claims are stated with\<close>

text \<open>
  The weights of the tracks linked to a vertex, in the order of the links; the
  contamination of a list of weights as the specification writes it, in exact
  arithmetic; and the same quotient in the arithmetic of doubles, the two sums taken
  in the order of the list.
\<close>

definition linkWeights :: "VertexPtr \<Rightarrow> FitterState \<Rightarrow> real list" where
  "linkWeights vtx fitterState =
     map (\<lambda>trk. case tracksAtVerticesMap fitterState (trk, vtx) of
                   None \<Rightarrow> 0 | Some trkAtVtx \<Rightarrow> trackWeight trkAtVtx)
       (trackLinks (vtxInfoMap fitterState vtx))"

definition contaminationFormula :: "real list \<Rightarrow> real" where
  "contaminationFormula ws =
     (if (\<Sum>w\<leftarrow>ws. w * w) = 0 then 0 else (\<Sum>w\<leftarrow>ws. w * (1 - w)) / (\<Sum>w\<leftarrow>ws. w * w))"

definition doubleSum :: "'s Collaborators \<Rightarrow> real list \<Rightarrow> real" where
  "doubleSum ext xs = foldl (dadd ext) 0 xs"

definition contaminationComputed :: "'s Collaborators \<Rightarrow> real list \<Rightarrow> real" where
  "contaminationComputed ext ws =
     (if doubleSum ext (map (\<lambda>w. dmul ext w w) ws) = 0 then 0
      else ddiv ext (doubleSum ext (map (\<lambda>w. dmul ext w (dsub ext 1 w)) ws))
                    (doubleSum ext (map (\<lambda>w. dmul ext w w) ws)))"

text \<open>
  The significance of two vertices in z and the impact parameter significance as the
  specification writes them, in exact arithmetic.
\<close>

definition zSignificanceFormula :: "Vertex \<Rightarrow> Vertex \<Rightarrow> real" where
  "zSignificanceFormula V V' =
     \<bar>fullPosition V eZ - fullPosition V' eZ\<bar> /
       sqrt (fullCovariance V eZ eZ + fullCovariance V' eZ eZ)"

definition ipSignificanceFormula :: "Config \<Rightarrow> ImpactParametersAndSigma \<Rightarrow> real" where
  "ipSignificanceFormula cfg ipas =
     (if sigmaD0 ipas \<le> 0 \<or> sigmaZ0 ipas \<le> 0 then 0
      else sqrt ((d0 ipas / sigmaD0 ipas) ^ 2 + (z0 ipas / sigmaZ0 ipas) ^ 2 +
                 (case (useTime cfg, deltaT ipas, sigmaDeltaT ipas) of
                    (True, Some dt, Some sdt) \<Rightarrow> if sdt > 0 then (dt / sdt) ^ 2 else 0
                  | _ \<Rightarrow> 0)))"

text \<open>
  For \<^verbatim>\<open>removeTrackIfIncompatible\<close>: the compatibility of a linked track, the links that
  are present in the seed tracks with a compatibility above 0, the distance in z of a
  track from a vertex as the subtraction of doubles gives it, and the seed tracks whose
  distance is below the largest double.
\<close>

definition linkCompatibility :: "VertexPtr \<Rightarrow> FitterState \<Rightarrow> InputTrack \<Rightarrow> real" where
  "linkCompatibility vtx fitterState trk =
     (case tracksAtVerticesMap fitterState (trk, vtx) of
        None \<Rightarrow> 0 | Some trkAtVtx \<Rightarrow> vertexCompatibility trkAtVtx)"

definition positiveSeedLinks :: "VertexPtr \<Rightarrow> InputTrack list \<Rightarrow> FitterState \<Rightarrow> InputTrack list" where
  "positiveSeedLinks vtx seedTracks fitterState =
     filter (\<lambda>trk. trk \<in> set seedTracks \<and> 0 < linkCompatibility vtx fitterState trk)
       (trackLinks (vtxInfoMap fitterState vtx))"

definition zDistance :: "'s Collaborators \<Rightarrow> GeometryContext \<Rightarrow> Vertex \<Rightarrow> InputTrack \<Rightarrow> real" where
  "zDistance ext geoCtx vtxValue trk =
     \<bar>dsub ext (trackPosition ext trk geoCtx eZ) (position vtxValue eZ)\<bar>"

definition nearSeedTracks ::
  "'s Collaborators \<Rightarrow> GeometryContext \<Rightarrow> Vertex \<Rightarrow> InputTrack list \<Rightarrow> InputTrack list" where
  "nearSeedTracks ext geoCtx vtxValue seedTracks =
     filter (\<lambda>trk. zDistance ext geoCtx vtxValue trk < DBL_MAX) seedTracks"

section \<open>The finder driver\<close>

text \<open>
  \<^verbatim>\<open>setConstraintAfterSeeding\<close> changes the current constraint and the seed vertex in
  place; the model returns both. The products of \<^verbatim>\<open>Identity() * looseConstrValue\<close> have a
  factor 0 or 1, and are exact.
\<close>

definition setConstraintAfterSeeding :: "Config \<Rightarrow> Vertex \<Rightarrow> bool \<Rightarrow> Vertex \<Rightarrow> Vertex \<times> Vertex" where
  "setConstraintAfterSeeding cfg currentConstraint useVertexConstraintInFit seedVertex =
     (if useVertexConstraintInFit then
        if \<not> useSeedConstraint cfg then
          (currentConstraint, seedVertex\<lparr>fullCovariance := fullCovariance currentConstraint\<rparr>)
        else
          (currentConstraint\<lparr>fullPosition := fullPosition seedVertex,
                              fullCovariance := fullCovariance seedVertex\<rparr>, seedVertex)
      else
        (currentConstraint\<lparr>fullPosition := fullPosition seedVertex,
                            fullCovariance := (\<lambda>i j. if i = j then looseConstrValue cfg else 0),
                            fitQuality := defaultConstrFitQuality cfg\<rparr>, seedVertex))"

text \<open>
  \<^verbatim>\<open>doSeeding\<close> returns the seed vertex; the model returns with it the current
  constraint as updated, and the state of the seed finder.
\<close>

definition doSeeding ::
  "'s Collaborators \<Rightarrow> Config \<Rightarrow> InputTrack list \<Rightarrow> Vertex \<Rightarrow> VertexingOptions \<Rightarrow> 's \<Rightarrow>
   InputTrack list \<Rightarrow> (error + Vertex \<times> Vertex) \<times> 's" where
  "doSeeding ext cfg trackVector currentConstraint vertexingOptions seedFinderState
       removedSeedTracks =
     (let seedOptions = vertexingOptions\<lparr>constraint := currentConstraint\<rparr>;
          seedFinderState1 = (if needsRemovedTracks ext
                              then setTracksToRemove ext seedFinderState removedSeedTracks
                              else seedFinderState)
      in case seedFinder_find ext trackVector seedOptions seedFinderState1 of
           (Inl e, seedFinderState2) \<Rightarrow> (Inl e, seedFinderState2)
         | (Inr seedResult, seedFinderState2) \<Rightarrow>
             if seedResult = [] then (Inl BackOfEmptyVector, seedFinderState2)
             else
               (case setConstraintAfterSeeding cfg currentConstraint
                       (useConstraintInFit seedOptions) (last seedResult) of
                  (currentConstraint1, seedVertex) \<Rightarrow>
                    (Inr (seedVertex, currentConstraint1), seedFinderState2)))"

text \<open>
  \<^verbatim>\<open>emplace\<close> on a map keeps the entry that is there. The loop of
  \<^verbatim>\<open>addCompatibleTracksToVertex\<close> reads the vertex and writes the fitter state only.
\<close>

definition emplace :: "('k \<rightharpoonup> 'v) \<Rightarrow> 'k \<Rightarrow> 'v \<Rightarrow> ('k \<rightharpoonup> 'v)" where
  "emplace m k v = (case m k of None \<Rightarrow> m(k \<mapsto> v) | Some old \<Rightarrow> m)"

fun addCompatibleLoop ::
  "'s Collaborators \<Rightarrow> Config \<Rightarrow> VertexingOptions \<Rightarrow> Vertex \<Rightarrow> VertexPtr \<Rightarrow> InputTrack list \<Rightarrow>
   FitterState \<Rightarrow> error + FitterState" where
  "addCompatibleLoop ext cfg vertexingOptions vtxValue vtx [] fitterState = Inr fitterState"
| "addCompatibleLoop ext cfg vertexingOptions vtxValue vtx (trk # rest) fitterState =
     (let pos = trackPosition ext trk (geoContext vertexingOptions)
      in if tracksMaxZinterval cfg < \<bar>dsub ext (pos eZ) (position vtxValue eZ)\<bar> then
           addCompatibleLoop ext cfg vertexingOptions vtxValue vtx rest fitterState
         else
           (case getIPSignificance ext cfg trk vtxValue vertexingOptions of
              Inl e \<Rightarrow> Inl e
            | Inr ipSig \<Rightarrow>
                if (case ipSig of None \<Rightarrow> False
                    | Some sig \<Rightarrow> sig < tracksMaxSignificance cfg) then
                  addCompatibleLoop ext cfg vertexingOptions vtxValue vtx rest
                    (fitterState\<lparr>
                       tracksAtVerticesMap :=
                         emplace (tracksAtVerticesMap fitterState) (trk, vtx)
                           (newTrackAtVertex ext trk),
                       vtxInfoMap := (vtxInfoMap fitterState)
                         (vtx := (vtxInfoMap fitterState vtx)
                            \<lparr>trackLinks := trackLinks (vtxInfoMap fitterState vtx) @ [trk]\<rparr>)\<rparr>)
                else addCompatibleLoop ext cfg vertexingOptions vtxValue vtx rest fitterState))"

fun addCompatibleTracksToVertex ::
  "'s Collaborators \<Rightarrow> Config \<Rightarrow> InputTrack list \<Rightarrow> VertexPtr \<Rightarrow> Heap \<Rightarrow> VertexingOptions \<Rightarrow>
   error + FitterState" where
  "addCompatibleTracksToVertex ext cfg tracks vtx (vertices, fitterState) vertexingOptions =
     addCompatibleLoop ext cfg vertexingOptions (vertices vtx) vtx tracks fitterState"

text \<open>
  The loop of \<^verbatim>\<open>canRecoverFromNoCompatibleTracks\<close> over the seed tracks, with
  \<^verbatim>\<open>smallestDeltaZ\<close>, \<^verbatim>\<open>newZ\<close> and \<^verbatim>\<open>nearTrackFound\<close>.
\<close>

fun nearestTrackLoop ::
  "'s Collaborators \<Rightarrow> GeometryContext \<Rightarrow> real \<Rightarrow> InputTrack list \<Rightarrow> real \<times> real \<times> bool \<Rightarrow>
   real \<times> real \<times> bool" where
  "nearestTrackLoop ext geoCtx vtxZ [] acc = acc"
| "nearestTrackLoop ext geoCtx vtxZ (trk # rest) (smallestDeltaZ, newZ, nearTrackFound) =
     (let pos = trackPosition ext trk geoCtx;
          zDistance = \<bar>dsub ext (pos eZ) vtxZ\<bar>
      in if zDistance < smallestDeltaZ then
           nearestTrackLoop ext geoCtx vtxZ rest (zDistance, pos eZ, True)
         else nearestTrackLoop ext geoCtx vtxZ rest (smallestDeltaZ, newZ, nearTrackFound))"

fun canRecoverFromNoCompatibleTracks ::
  "'s Collaborators \<Rightarrow> Config \<Rightarrow> InputTrack list \<Rightarrow> InputTrack list \<Rightarrow> VertexPtr \<Rightarrow> Vertex \<Rightarrow>
   Heap \<Rightarrow> VertexingOptions \<Rightarrow> error + bool \<times> Heap" where
  "canRecoverFromNoCompatibleTracks ext cfg allTracks seedTracks vtx currentConstraint
       (vertices, fitterState) vertexingOptions =
     (if trackLinks (vtxInfoMap fitterState vtx) = [] then
        (case nearestTrackLoop ext (geoContext vertexingOptions) (position (vertices vtx) eZ)
                seedTracks (DBL_MAX, 0, False) of
           (smallestDeltaZ, newZ, nearTrackFound) \<Rightarrow>
             if nearTrackFound then
               (let vertices1 = vertices
                      (vtx := (vertices vtx)\<lparr>fullPosition := (\<lambda>i. if i = eZ then newZ else 0)\<rparr>);
                    fitterState1 = fitterState\<lparr>vtxInfoMap := (vtxInfoMap fitterState)
                      (vtx := newVertexInfo currentConstraint (fullPosition (vertices1 vtx)))\<rparr>
                in case addCompatibleTracksToVertex ext cfg allTracks vtx
                          (vertices1, fitterState1) vertexingOptions of
                     Inl e \<Rightarrow> Inl e
                   | Inr fitterState2 \<Rightarrow>
                       if trackLinks (vtxInfoMap fitterState2 vtx) = []
                       then Inr (False, (vertices1, fitterState2))
                       else Inr (True, (vertices1, fitterState2)))
             else Inr (False, (vertices, fitterState)))
      else Inr (True, (vertices, fitterState)))"

fun canPrepareVertexForFit ::
  "'s Collaborators \<Rightarrow> Config \<Rightarrow> InputTrack list \<Rightarrow> InputTrack list \<Rightarrow> VertexPtr \<Rightarrow> Vertex \<Rightarrow>
   Heap \<Rightarrow> VertexingOptions \<Rightarrow> error + bool \<times> Heap" where
  "canPrepareVertexForFit ext cfg allTracks seedTracks vtx currentConstraint
       (vertices, fitterState) vertexingOptions =
     (let fitterState1 = fitterState\<lparr>vtxInfoMap := (vtxInfoMap fitterState)
            (vtx := newVertexInfo currentConstraint (fullPosition (vertices vtx)))\<rparr>
      in case addCompatibleTracksToVertex ext cfg allTracks vtx (vertices, fitterState1)
                vertexingOptions of
           Inl e \<Rightarrow> Inl e
         | Inr fitterState2 \<Rightarrow>
             canRecoverFromNoCompatibleTracks ext cfg allTracks seedTracks vtx
               currentConstraint (vertices, fitterState2) vertexingOptions)"

text \<open>
  \<^verbatim>\<open>deleteLastVertex\<close>: the two vectors without their last element and the heap as the
  fitter leaves it.
\<close>

fun deleteLastVertex ::
  "'s Collaborators \<Rightarrow> VertexPtr \<Rightarrow> VertexPtr list \<Rightarrow> VertexPtr list \<Rightarrow> Heap \<Rightarrow>
   VertexingOptions \<Rightarrow> error + VertexPtr list \<times> VertexPtr list \<times> Heap" where
  "deleteLastVertex ext vtx allVertices allVerticesPtr (vertices, fitterState) vertexingOptions =
     (let allVertices1 = butlast allVertices;
          allVerticesPtr1 = butlast allVerticesPtr;
          fitterState1 = removeVertexFromMultiMap ext fitterState vtx
      in case removeVertexFromCollection ext fitterState1 vtx of
           Inl e \<Rightarrow> Inl e
         | Inr fitterState2 \<Rightarrow>
             (let fitterState3 = fitterState2\<lparr>tracksAtVerticesMap :=
                    (\<lambda>entry. case tracksAtVerticesMap fitterState2 entry of
                       None \<Rightarrow> None
                     | Some trkAtVtx \<Rightarrow>
                         if snd entry = vtx then Some (trkAtVtx\<lparr>isLinearized := False\<rparr>)
                         else Some trkAtVtx)\<rparr>
              in if vertexCollection fitterState3 = [] then
                   Inr (allVertices1, allVerticesPtr1, (vertices, fitterState3))
                 else
                   (case fit ext (vertices, fitterState3) vertexingOptions of
                      Inl e \<Rightarrow> Inl e
                    | Inr heap1 \<Rightarrow> Inr (allVertices1, allVerticesPtr1, heap1))))"

text \<open>\<^verbatim>\<open>getVertexOutputList\<close>: its inner loop over the links and its outer loop.\<close>

fun tracksAtVtxLoop :: "FitterState \<Rightarrow> VertexPtr \<Rightarrow> InputTrack list \<Rightarrow> error + TrackAtVertex list" where
  "tracksAtVtxLoop fitterState vtx [] = Inr []"
| "tracksAtVtxLoop fitterState vtx (trk # rest) =
     (case map_at (tracksAtVerticesMap fitterState) (trk, vtx) of
        Inl e \<Rightarrow> Inl e
      | Inr trkAtVtx \<Rightarrow>
          (case tracksAtVtxLoop fitterState vtx rest of
             Inl e \<Rightarrow> Inl e
           | Inr tracksAtVtx \<Rightarrow> Inr (trkAtVtx # tracksAtVtx)))"

fun getVertexOutputList :: "VertexPtr list \<Rightarrow> Heap \<Rightarrow> error + Vertex list" where
  "getVertexOutputList [] heap = Inr []"
| "getVertexOutputList (vtx # rest) (vertices, fitterState) =
     (case tracksAtVtxLoop fitterState vtx (trackLinks (vtxInfoMap fitterState vtx)) of
        Inl e \<Rightarrow> Inl e
      | Inr tracksAtVtx \<Rightarrow>
          (case getVertexOutputList rest (vertices, fitterState) of
             Inl e \<Rightarrow> Inl e
           | Inr outputVec \<Rightarrow> Inr ((vertices vtx)\<lparr>tracksAtVertex := tracksAtVtx\<rparr> # outputVec)))"

text \<open>
  The local variables of \<^verbatim>\<open>find\<close> that live across iterations, the vertex store and
  the fitter state (\<open>heap\<close>) among them. \<^verbatim>\<open>allVertices\<close> owns the vertices; the model
  keeps the addresses it holds.
\<close>

record 's LoopState =
  seedTracks :: "InputTrack list"
  removedSeedTracks :: "InputTrack list"
  allVertices :: "VertexPtr list"
  allVerticesPtr :: "VertexPtr list"
  heap :: Heap
  seedFinderState :: 's

text \<open>
  How one pass through the body of the \<^verbatim>\<open>while\<close> loop ends: at its end, at a \<^verbatim>\<open>break\<close>,
  or at a \<^verbatim>\<open>return\<close> of an error (a thrown exception included).
\<close>

datatype 's Flow = Continue "'s LoopState" | Break "'s LoopState" | Return error

definition popCandidate :: "'s LoopState \<Rightarrow> 's LoopState" where
  "popCandidate s = s\<lparr>allVertices := butlast (allVertices s),
                       allVerticesPtr := butlast (allVerticesPtr s)\<rparr>"

text \<open>
  The second half of the loop body, from \<^verbatim>\<open>checkVertexAndCompatibleTracks\<close> to the end.
  \<^verbatim>\<open>removeCompatibleTracksFromSeedTracks\<close> returns nothing; the flag paired with its
  result is the \<^verbatim>\<open>removedIncompatibleTrack\<close> of the other branch, which only that
  branch can make false.
\<close>

definition evaluateCandidate ::
  "'s Collaborators \<Rightarrow> Config \<Rightarrow> VertexingOptions \<Rightarrow> VertexPtr \<Rightarrow> 's LoopState \<Rightarrow> 's Flow" where
  "evaluateCandidate ext cfg vertexingOptions vtxCandidate s =
     (case checkVertexAndCompatibleTracks cfg vtxCandidate (seedTracks s) (snd (heap s))
             (useConstraintInFit vertexingOptions) of
        Inl e \<Rightarrow> Return e
      | Inr (nCompatibleTracks, isGoodVertex) \<Rightarrow>
          (case (if nCompatibleTracks > 0 then
                   (case removeCompatibleTracksFromSeedTracks cfg vtxCandidate (seedTracks s)
                           (snd (heap s)) (removedSeedTracks s) of
                      Inl e \<Rightarrow> Inl e
                    | Inr (seedTracks1, removedSeedTracks1) \<Rightarrow>
                        Inr (True, seedTracks1, removedSeedTracks1))
                 else
                   removeTrackIfIncompatible ext (fst (heap s) vtxCandidate) vtxCandidate
                     (seedTracks s) (snd (heap s)) (removedSeedTracks s)
                     (geoContext vertexingOptions)) of
             Inl e \<Rightarrow> Return e
           | Inr (removedIncompatibleTrack, seedTracks1, removedSeedTracks1) \<Rightarrow>
               (let s1 = s\<lparr>seedTracks := seedTracks1, removedSeedTracks := removedSeedTracks1\<rparr>
                in if \<not> removedIncompatibleTrack then Break (popCandidate s1)
                   else
                     (case (if isGoodVertex
                            then keepNewVertex ext cfg (fst (heap s1)) vtxCandidate
                                   (allVerticesPtr s1) (snd (heap s1))
                            else Inr False) of
                        Inl e \<Rightarrow> Return e
                      | Inr keepVertex \<Rightarrow>
                          if \<not> keepVertex then
                            (case deleteLastVertex ext vtxCandidate (allVertices s1)
                                    (allVerticesPtr s1) (heap s1) vertexingOptions of
                               Inl e \<Rightarrow> Return e
                             | Inr (allVertices1, allVerticesPtr1, heap1) \<Rightarrow>
                                 Continue (s1\<lparr>allVertices := allVertices1,
                                               allVerticesPtr := allVerticesPtr1,
                                               heap := heap1\<rparr>))
                          else Continue s1))))"

text \<open>The loop body, from the choice of the search tracks to the fit.\<close>

definition loopBody ::
  "'s Collaborators \<Rightarrow> Config \<Rightarrow> InputTrack list \<Rightarrow> VertexingOptions \<Rightarrow> 's LoopState \<Rightarrow> 's Flow" where
  "loopBody ext cfg origTracks vertexingOptions s =
     (let searchTracks = (if doRealMultiVertex cfg then origTracks else seedTracks s);
          currentConstraint = constraint vertexingOptions
      in case doSeeding ext cfg (seedTracks s) currentConstraint vertexingOptions
                (seedFinderState s) (removedSeedTracks s) of
           (Inl e, seedFinderState1) \<Rightarrow> Return e
         | (Inr (seedVertex, currentConstraint1), seedFinderState1) \<Rightarrow>
             (let vtxCandidate = allocVertex ext (allVertices s);
                  s1 = s\<lparr>seedFinderState := seedFinderState1,
                         allVertices := allVertices s @ [vtxCandidate],
                         allVerticesPtr := allVerticesPtr s @ [vtxCandidate],
                         heap := ((fst (heap s))(vtxCandidate := seedVertex), snd (heap s))\<rparr>
              in if position (fst (heap s1) vtxCandidate) eZ =
                    position (constraint vertexingOptions) eZ
                 then Break (popCandidate s1)
                 else
                   (let s2 = s1\<lparr>removedSeedTracks := []\<rparr>
                    in case canPrepareVertexForFit ext cfg searchTracks (seedTracks s2)
                              vtxCandidate currentConstraint1 (heap s2) vertexingOptions of
                         Inl e \<Rightarrow> Return e
                       | Inr (prepResult, heap1) \<Rightarrow>
                           if \<not> prepResult then Break (popCandidate (s2\<lparr>heap := heap1\<rparr>))
                           else
                             (case addVtxToFit ext
                                     (fst heap1, addVertexToMultiMap ext (snd heap1) vtxCandidate)
                                     vtxCandidate vertexingOptions of
                                Inl e \<Rightarrow> Return e
                              | Inr heap2 \<Rightarrow>
                                  evaluateCandidate ext cfg vertexingOptions vtxCandidate
                                    (s2\<lparr>heap := heap2\<rparr>)))))"

text \<open>
  The \<^verbatim>\<open>while\<close> loop of \<^verbatim>\<open>find\<close>, with its counter. It returns the counter and the
  variables as the loop leaves them, and the error if it left by a \<^verbatim>\<open>return\<close>.
\<close>

function find_loop ::
  "'s Collaborators \<Rightarrow> Config \<Rightarrow> InputTrack list \<Rightarrow> VertexingOptions \<Rightarrow> int \<Rightarrow> 's LoopState \<Rightarrow>
   int \<times> 's LoopState \<times> error option" where
  "find_loop ext cfg origTracks vertexingOptions iteration s =
     (if ((addSingleTrackVertices cfg \<and> seedTracks s \<noteq> []) \<or>
          (\<not> addSingleTrackVertices cfg \<and> seedTracks s \<noteq> [])) \<and>
         iteration < maxIterations cfg
      then
        (case loopBody ext cfg origTracks vertexingOptions s of
           Continue s1 \<Rightarrow> find_loop ext cfg origTracks vertexingOptions (iteration + 1) s1
         | Break s1 \<Rightarrow> (iteration, s1, None)
         | Return e \<Rightarrow> (iteration, s, Some e))
      else (iteration, s, None))"
  by pat_completeness auto
termination
  by (relation "measure (\<lambda>(ext, cfg, origTracks, vertexingOptions, iteration, s).
                  nat (maxIterations cfg - iteration))") auto

declare find_loop.simps [simp del]

text \<open>
  \<^verbatim>\<open>find\<close>. \<open>memory\<close> is the vertex store as the call finds it; the fitter state and the
  state of the seed finder are new.
\<close>

definition initialLoopState ::
  "'s Collaborators \<Rightarrow> InputTrack list \<Rightarrow> VertexingOptions \<Rightarrow> (VertexPtr \<Rightarrow> Vertex) \<Rightarrow> 's LoopState" where
  "initialLoopState ext allTracks vertexingOptions memory =
     \<lparr>seedTracks = allTracks, removedSeedTracks = [], allVertices = [], allVerticesPtr = [],
      heap = (memory, newFitterState ext (magFieldContext vertexingOptions)),
      seedFinderState = newSeedFinderState ext\<rparr>"

definition find_AMVF ::
  "'s Collaborators \<Rightarrow> Config \<Rightarrow> InputTrack list \<Rightarrow> VertexingOptions \<Rightarrow> (VertexPtr \<Rightarrow> Vertex) \<Rightarrow>
   error + Vertex list" where
  "find_AMVF ext cfg allTracks vertexingOptions memory =
     (if allTracks = [] then Inl EmptyInput
      else
        (case find_loop ext cfg allTracks vertexingOptions 0
                (initialLoopState ext allTracks vertexingOptions memory) of
           (iteration, s, Some e) \<Rightarrow> Inl e
         | (iteration, s, None) \<Rightarrow> getVertexOutputList (allVerticesPtr s) (heap s)))"

text \<open>The number of vertices a call of \<^verbatim>\<open>find\<close> returns: none when it returns an error.\<close>

definition nReturnedVertices :: "error + Vertex list \<Rightarrow> nat" where
  "nReturnedVertices result = (case result of Inl e \<Rightarrow> 0 | Inr vs \<Rightarrow> length vs)"

section \<open>Example values\<close>

definition zeroVertex :: Vertex where
  "zeroVertex = \<lparr>fullPosition = (\<lambda>i. 0), fullCovariance = (\<lambda>i j. 0),
     fitQuality = (0, 0), tracksAtVertex = []\<rparr>"

definition exampleConfig :: Config where
  "exampleConfig = \<lparr>maxIterations = 100, addSingleTrackVertices = True,
     doRealMultiVertex = True, useSeedConstraint = True,
     useVertexCovForIPEstimation = False, useTime = False, tracksMaxZinterval = 3,
     tracksMaxSignificance = 10, maxVertexChi2 = 18, useFastCompatibility = True,
     minWeight = 1 / 1024, maximumVertexContamination = 1 / 2, do3dSplitting = False,
     maxMergeVertexSignificance = 3, looseConstrValue = 100000000,
     defaultConstrFitQuality = (0, -3)\<rparr>"

text \<open>
  A fitter state in which the vertex at address 7 is linked to the tracks 2, 3 and 4,
  each with weight 1 and a compatibility equal to its own number.
\<close>

definition exampleTrackAtVertex :: "InputTrack \<Rightarrow> TrackAtVertex" where
  "exampleTrackAtVertex trk = \<lparr>trackWeight = 1, chi2Track = 0,
     vertexCompatibility = real trk, isLinearized = False\<rparr>"

definition exampleFitterState :: FitterState where
  "exampleFitterState = \<lparr>
     vtxInfoMap = (\<lambda>v. \<lparr>infoConstraint = zeroVertex, seedPosition = (\<lambda>i. 0),
                         trackLinks = (if v = 7 then [2, 3, 4] else [])\<rparr>),
     tracksAtVerticesMap = (\<lambda>(trk, v). if v = 7 \<and> trk \<in> {2, 3, 4}
                                          then Some (exampleTrackAtVertex trk) else None),
     vertexCollection = [7],
     trackToVerticesMultiMap = [(2, 7), (3, 7), (4, 7)]\<rparr>"

definition halfWeightFitterState :: FitterState where
  "halfWeightFitterState = exampleFitterState\<lparr>tracksAtVerticesMap :=
     (\<lambda>key. map_option (\<lambda>trkAtVtx. trkAtVtx\<lparr>trackWeight := 1 / 2\<rparr>)
               (tracksAtVerticesMap exampleFitterState key))\<rparr>"

definition vertexAtZ :: "real \<Rightarrow> Vertex" where
  "vertexAtZ z = \<lparr>fullPosition = (\<lambda>i. if i = 2 then z else 0),
     fullCovariance = (\<lambda>i j. if i = j then 1 / 2 else 0),
     fitQuality = (0, 0), tracksAtVertex = []\<rparr>"

definition emptyFitterState :: FitterState where
  "emptyFitterState = \<lparr>
     vtxInfoMap = (\<lambda>v. \<lparr>infoConstraint = zeroVertex, seedPosition = (\<lambda>i. 0), trackLinks = []\<rparr>),
     tracksAtVerticesMap = Map.empty,
     vertexCollection = [],
     trackToVerticesMultiMap = []\<rparr>"

text \<open>
  Example collaborators: a seed finder that returns a vertex at z = 20 on its first call
  and fails afterwards, a fitter that changes nothing, an inverse for diagonal matrices,
  and the exact operations as arithmetic. The examples that use them compute with
  small integers and halves only, where the arithmetic of doubles is exact.
\<close>

definition exampleExt :: "nat Collaborators" where
  "exampleExt = \<lparr>
     safeInverse = (\<lambda>n m. if m 0 0 = 0 \<or> m 1 1 = 0 \<or> m 2 2 = 0 \<or> (n = 4 \<and> m 3 3 = 0)
                             then None
                             else Some (\<lambda>i j. if i = j then 1 / m i i else 0)),
     trackPosition = (\<lambda>trk geoCtx i. if i = 2 then 10 * real trk else 0),
     newTrackAtVertex = exampleTrackAtVertex,
     getImpactParameters = (\<lambda>trk vtx geoCtx magCtx withTime.
        Inr \<lparr>d0 = 3, z0 = 4, sigmaD0 = 1, sigmaZ0 = 1, deltaT = Some 12, sigmaDeltaT = Some 1\<rparr>),
     newSeedFinderState = 0,
     needsRemovedTracks = False,
     setTracksToRemove = (\<lambda>s trks. s),
     seedFinder_find = (\<lambda>trks opts n.
        (if n = 0 then Inr [vertexAtZ 20] else Inl (CollaboratorError 1), Suc n)),
     newFitterState = (\<lambda>magCtx. emptyFitterState),
     addVertexToMultiMap = (\<lambda>fs v. fs),
     removeVertexFromMultiMap = (\<lambda>fs v. fs),
     removeVertexFromCollection = (\<lambda>fs v. Inr fs),
     addVtxToFit = (\<lambda>h v opts. Inr h),
     fit = (\<lambda>h opts. Inr h),
     allocVertex = (\<lambda>live. sum_list live + 7),
     dadd = (\<lambda>x y. x + y),
     dsub = (\<lambda>x y. x - y),
     dmul = (\<lambda>x y. x * y),
     ddiv = (\<lambda>x y. x / y),
     dpow2 = (\<lambda>x. x ^ 2),
     dsqrt = sqrt,
     eigenQuadForm = (\<lambda>n v m. \<Sum>i<n. v i * (\<Sum>j<n. m i j * v j))\<rparr>"

definition exampleVertices :: "VertexPtr \<Rightarrow> Vertex" where
  "exampleVertices v = vertexAtZ (if v = 8 then 21 else 20)"

text \<open>
  Collaborators whose tracks all lie at the largest double in z. The difference of the
  largest double and 0 is exact.
\<close>

definition farExt :: "nat Collaborators" where
  "farExt = exampleExt\<lparr>trackPosition := (\<lambda>trk geoCtx i. if i = 2 then DBL_MAX else 0)\<rparr>"

text \<open>
  Collaborators with the underflow of doubles: a product or a square whose absolute
  value is below \<open>2 ^ -1075\<close>, half the smallest positive double, is 0, and a difference
  \<open>x - y\<close> is \<open>x\<close> when \<open>y\<close> is too small to change \<open>x\<close>, and \<open>- y\<close> when \<open>x\<close> is
  too small to change \<open>y\<close>. Their impact parameter
  estimator returns for \<open>d0\<close> the double \<open>2 ^ -600\<close>. With them, a fitter state whose
  three tracks at the vertex 7 have the weight \<open>2 ^ -600\<close>.
\<close>

definition tinyDouble :: real where
  "tinyDouble = 1 / 2 ^ 600"

definition underflowExt :: "nat Collaborators" where
  "underflowExt = exampleExt\<lparr>
     dmul := (\<lambda>x y. if \<bar>x * y\<bar> * 2 ^ 1075 < 1 then 0 else x * y),
     dsub := (\<lambda>x y. if \<bar>y\<bar> * 2 ^ 54 < \<bar>x\<bar> then x
                     else if \<bar>x\<bar> * 2 ^ 54 < \<bar>y\<bar> then - y else x - y),
     dpow2 := (\<lambda>x. if x ^ 2 * 2 ^ 1075 < 1 then 0 else x ^ 2),
     getImpactParameters := (\<lambda>trk vtx geoCtx magCtx withTime.
        Inr \<lparr>d0 = tinyDouble, z0 = 0, sigmaD0 = 1, sigmaZ0 = 1,
             deltaT = None, sigmaDeltaT = None\<rparr>)\<rparr>"

definition tinyWeightFitterState :: FitterState where
  "tinyWeightFitterState = exampleFitterState\<lparr>tracksAtVerticesMap :=
     (\<lambda>key. map_option (\<lambda>trkAtVtx. trkAtVtx\<lparr>trackWeight := tinyDouble\<rparr>)
               (tracksAtVerticesMap exampleFitterState key))\<rparr>"

text \<open>
  The same arithmetic with a track 3 at \<open>z = 2 ^ -60\<close> and every other track at
  \<open>z = 0\<close>.
\<close>

definition absorbingExt :: "nat Collaborators" where
  "absorbingExt = underflowExt\<lparr>
     trackPosition := (\<lambda>trk geoCtx i. if i = 2 \<and> trk = 3 then 1 / 2 ^ 60 else 0)\<rparr>"

text \<open>
  Collaborators that round a sum between 1/4 and 1/2 to the nearest multiple of
  \<open>2 ^ -54\<close>, as the addition of doubles does in that range. With them, two vertices
  at z = 0 and z = 3/2 whose variances in z are the doubles nearest to 0.05 and 0.2.
\<close>

definition double_0_05 :: real where
  "double_0_05 = 3602879701896397 / 2 ^ 56"

definition double_0_2 :: real where
  "double_0_2 = 3602879701896397 / 2 ^ 54"

definition roundingExt :: "nat Collaborators" where
  "roundingExt = exampleExt\<lparr>
     dadd := (\<lambda>x y. if 1 / 4 \<le> x + y \<and> x + y < 1 / 2
                     then of_int (round ((x + y) * 2 ^ 54)) / 2 ^ 54 else x + y)\<rparr>"

definition roundingVertices :: "VertexPtr \<Rightarrow> Vertex" where
  "roundingVertices v =
     (if v = 8
      then \<lparr>fullPosition = (\<lambda>i. if i = 2 then 3 / 2 else 0),
            fullCovariance = (\<lambda>i j. if i = j then double_0_2 else 0),
            fitQuality = (0, 0), tracksAtVertex = []\<rparr>
      else \<lparr>fullPosition = (\<lambda>i. 0),
            fullCovariance = (\<lambda>i j. if i = j then double_0_05 else 0),
            fitQuality = (0, 0), tracksAtVertex = []\<rparr>)"

text \<open>
  Options for a run of the finder: a constraint at the origin, and one at the z of the
  seed that the example seed finder returns.
\<close>

definition exampleOptions :: VertexingOptions where
  "exampleOptions = \<lparr>constraint = zeroVertex, useConstraintInFit = True,
     geoContext = 0, magFieldContext = 0\<rparr>"

definition breakOptions :: VertexingOptions where
  "breakOptions = exampleOptions\<lparr>constraint := vertexAtZ 20\<rparr>"

section \<open>Properties of the compatibility evaluation\<close>

lemma checkLoop_count:
  "0 \<le> n \<Longrightarrow> n < trackCap cfg useC \<Longrightarrow>
   list_all (\<lambda>trk. tracksAtVerticesMap fs (trk, vtx) \<noteq> None) links \<Longrightarrow>
   checkLoop cfg vtx seed fs useC links n =
     Inr (min (n + int (length (filter (countsAsCompatible cfg vtx seed fs) links)))
              (trackCap cfg useC),
          trackCap cfg useC \<le> n + int (length (filter (countsAsCompatible cfg vtx seed fs) links)))"
proof (induction links arbitrary: n)
  case Nil
  then show ?case by simp
next
  case (Cons trk rest)
  then obtain tav where tav: "tracksAtVerticesMap fs (trk, vtx) = Some tav" by auto
  from Cons.prems have rest: "list_all (\<lambda>trk. tracksAtVerticesMap fs (trk, vtx) \<noteq> None) rest"
    by simp
  define c where "c = int (length (filter (countsAsCompatible cfg vtx seed fs) rest))"
  have c0: "0 \<le> c" by (simp add: c_def)
  show ?case
  proof (cases "isCompatible cfg tav \<and> trk \<in> set seed")
    case False
    then have "checkLoop cfg vtx seed fs useC (trk # rest) n =
               checkLoop cfg vtx seed fs useC rest n"
      using tav by (auto simp: map_at_def)
    moreover have "\<not> countsAsCompatible cfg vtx seed fs trk"
      using False tav by (simp add: countsAsCompatible_def)
    ultimately show ?thesis using Cons.IH[OF Cons.prems(1,2) rest] by simp
  next
    case True
    then have cnt: "countsAsCompatible cfg vtx seed fs trk"
      using tav by (simp add: countsAsCompatible_def)
    show ?thesis
    proof (cases "n + 1 < trackCap cfg useC")
      case l: True
      then have "checkLoop cfg vtx seed fs useC (trk # rest) n =
                 checkLoop cfg vtx seed fs useC rest (n + 1)"
        using tav True Cons.prems(1) by (auto simp: map_at_def trackCap_def split: if_splits)
      moreover have "0 \<le> n + 1" using Cons.prems by simp
      ultimately show ?thesis using Cons.IH[OF _ l rest] cnt by (simp add: add.assoc)
    next
      case l: False
      then have "checkLoop cfg vtx seed fs useC (trk # rest) n = Inr (n + 1, True)"
        using tav True Cons.prems(1,2) by (auto simp: map_at_def trackCap_def split: if_splits)
      moreover have "n + 1 = trackCap cfg useC" using l Cons.prems(2) by simp
      ultimately show ?thesis using cnt c0 unfolding c_def[symmetric] by simp
    qed
  qed
qed

lemma checkVertexAndCompatibleTracks_value:
  assumes "linksHaveEntries fs vtx"
  shows "checkVertexAndCompatibleTracks cfg vtx seed fs useC =
           Inr (min (int (length (compatibleSeedLinks cfg vtx seed fs))) (trackCap cfg useC),
                trackCap cfg useC \<le> int (length (compatibleSeedLinks cfg vtx seed fs)))"
proof -
  have "0 < trackCap cfg useC" by (simp add: trackCap_def)
  from checkLoop_count[OF _ this, of fs vtx _ seed] assms show ?thesis
    by (simp add: checkVertexAndCompatibleTracks_def compatibleSeedLinks_def
        linksHaveEntries_def)
qed

lemma example_linksHaveEntries: "linksHaveEntries exampleFitterState 7"
  by (simp add: linksHaveEntries_def exampleFitterState_def)

lemma example_compatibleSeedLinks:
  "compatibleSeedLinks exampleConfig 7 [2, 3, 4] exampleFitterState = [2, 3, 4]"
  by (simp add: compatibleSeedLinks_def countsAsCompatible_def exampleFitterState_def
      exampleConfig_def exampleTrackAtVertex_def isCompatible_def)

text \<open>
  C1. When every track link of the candidate has its entry in the fitter state,
  \<^verbatim>\<open>checkVertexAndCompatibleTracks\<close> returns normally, and its \<^verbatim>\<open>isGoodVertex\<close> is true
  exactly when single-track vertices are configured, the constraint is used in the fit
  and at least one link classified compatible is present in the seed tracks, or at least
  two such links are.
\<close>

theorem isGoodVertex_iff:
  assumes "linksHaveEntries fs vtx"
  shows "\<exists>n. checkVertexAndCompatibleTracks cfg vtx seed fs useC =
           Inr (n, (addSingleTrackVertices cfg \<and> useC \<and>
                      1 \<le> length (compatibleSeedLinks cfg vtx seed fs)) \<or>
                   2 \<le> length (compatibleSeedLinks cfg vtx seed fs))"
proof -
  have "(trackCap cfg useC \<le> int (length (compatibleSeedLinks cfg vtx seed fs))) =
        ((addSingleTrackVertices cfg \<and> useC \<and>
            1 \<le> length (compatibleSeedLinks cfg vtx seed fs)) \<or>
          2 \<le> length (compatibleSeedLinks cfg vtx seed fs))"
    by (auto simp: trackCap_def)
  then show ?thesis
    using checkVertexAndCompatibleTracks_value[OF assms, of cfg seed useC] by simp
qed

theorem isGoodVertex_iff_witness:
  "linksHaveEntries exampleFitterState 7 \<and>
   (\<exists>n. checkVertexAndCompatibleTracks exampleConfig 7 [2, 3, 4] exampleFitterState False =
           Inr (n, True))"
  using isGoodVertex_iff[OF example_linksHaveEntries, of exampleConfig "[2, 3, 4]" False]
    example_linksHaveEntries
  by (simp add: example_compatibleSeedLinks)

text \<open>
  C4, as stated, fails: with three links that are all compatible and all present in the
  seed tracks, the loop breaks at the second one and returns the count 2, not 3.
\<close>

theorem nCompatibleTracks_total_counterexample:
  "checkVertexAndCompatibleTracks exampleConfig 7 [2, 3, 4] exampleFitterState False =
     Inr (2, True) \<and>
   length (compatibleSeedLinks exampleConfig 7 [2, 3, 4] exampleFitterState) = 3"
proof
  show "checkVertexAndCompatibleTracks exampleConfig 7 [2, 3, 4] exampleFitterState False =
     Inr (2, True)"
    by (simp add: checkVertexAndCompatibleTracks_def exampleFitterState_def
        exampleConfig_def exampleTrackAtVertex_def isCompatible_def map_at_def)
  show "length (compatibleSeedLinks exampleConfig 7 [2, 3, 4] exampleFitterState) = 3"
    by (simp add: example_compatibleSeedLinks)
qed

text \<open>
  C4, amended. When every track link of the candidate has its entry in the fitter state,
  the \<^verbatim>\<open>nCompatibleTracks\<close> that \<^verbatim>\<open>checkVertexAndCompatibleTracks\<close> returns is the number of
  links that are classified compatible and present in the seed tracks, capped at the
  count at which the loop breaks: 1 when single-track vertices are configured and the
  constraint is used in the fit, 2 otherwise.
\<close>

theorem nCompatibleTracks_capped:
  assumes "linksHaveEntries fs vtx"
  shows "\<exists>good. checkVertexAndCompatibleTracks cfg vtx seed fs useC =
           Inr (min (int (length (compatibleSeedLinks cfg vtx seed fs)))
                    (if addSingleTrackVertices cfg \<and> useC then 1 else 2), good)"
  using checkVertexAndCompatibleTracks_value[OF assms, of cfg seed useC]
  by (simp add: trackCap_def)

theorem nCompatibleTracks_capped_witness:
  "linksHaveEntries exampleFitterState 7 \<and>
   (\<exists>good. checkVertexAndCompatibleTracks exampleConfig 7 [2, 3, 4] exampleFitterState False =
           Inr (2, good))"
  using nCompatibleTracks_capped[OF example_linksHaveEntries, of exampleConfig "[2, 3, 4]" False]
    example_linksHaveEntries
  by (simp add: example_compatibleSeedLinks)

section \<open>Properties of the acceptance tests\<close>

lemma contaminationLoop_sums:
  "list_all (\<lambda>trk. tracksAtVerticesMap fs (trk, vtx) \<noteq> None) links \<Longrightarrow>
   contaminationLoop ext vtx fs links (a, b) =
     Inr (foldl (dadd ext) a
            (map (\<lambda>w. dmul ext w (dsub ext 1 w))
               (map (\<lambda>trk. case tracksAtVerticesMap fs (trk, vtx) of
                   None \<Rightarrow> 0 | Some trkAtVtx \<Rightarrow> trackWeight trkAtVtx) links)),
          foldl (dadd ext) b
            (map (\<lambda>w. dmul ext w w)
               (map (\<lambda>trk. case tracksAtVerticesMap fs (trk, vtx) of
                   None \<Rightarrow> 0 | Some trkAtVtx \<Rightarrow> trackWeight trkAtVtx) links)))"
proof (induction links arbitrary: a b)
  case Nil
  then show ?case by simp
next
  case (Cons trk rest)
  then obtain tav where tav: "tracksAtVerticesMap fs (trk, vtx) = Some tav" by auto
  from Cons.prems have "list_all (\<lambda>trk. tracksAtVerticesMap fs (trk, vtx) \<noteq> None) rest" by simp
  from Cons.IH[OF this] tav show ?case
    by (simp add: map_at_def Let_def)
qed

lemma contamination_value:
  assumes "linksHaveEntries fs vtx"
  shows "contamination ext vtx fs = Inr (contaminationComputed ext (linkWeights vtx fs))"
  using contaminationLoop_sums[of fs vtx "trackLinks (vtxInfoMap fs vtx)" ext 0 0] assms
  by (simp add: contamination_def linksHaveEntries_def contaminationComputed_def
      doubleSum_def linkWeights_def)

lemma contaminationFormula_equal_weights:
  assumes "0 < t" and "t < 1 / 2"
  shows "contaminationFormula [t, t, t] > 1 / 2"
proof -
  have "contaminationFormula [t, t, t] = (3 * (t * (1 - t))) / (3 * (t * t))"
    using assms by (simp add: contaminationFormula_def)
  also have "\<dots> = (1 - t) / t" using assms by simp
  finally have e: "contaminationFormula [t, t, t] = (1 - t) / t" .
  have "1 / 2 < (1 - t) / t" using assms by (simp add: field_simps)
  then show ?thesis by (simp only: e)
qed

lemma tinyDouble_bounds: "0 < tinyDouble" "tinyDouble < 1 / 2"
  by (simp_all add: tinyDouble_def)

lemma tinyDouble_small:
  "\<not> \<bar>tinyDouble\<bar> * 2 ^ 1075 < 1" "\<bar>tinyDouble * tinyDouble\<bar> * 2 ^ 1075 < 1"
  "tinyDouble\<^sup>2 * 2 ^ 1075 < 1" "tinyDouble * 2 ^ 54 < 1"
  by (simp_all add: tinyDouble_def power_divide)

lemma underflowExt_arithmetic:
  "dadd underflowExt x y = x + y"
  "dsub underflowExt 1 tinyDouble = 1"
  "dmul underflowExt tinyDouble 1 = tinyDouble"
  "dmul underflowExt tinyDouble tinyDouble = 0"
  "ddiv underflowExt x y = x / y"
  "dpow2 underflowExt tinyDouble = 0"
  "dpow2 underflowExt 0 = 0"
  "dsqrt underflowExt x = sqrt x"
  using tinyDouble_bounds tinyDouble_small
  by (simp_all add: underflowExt_def exampleExt_def)

lemma tiny_linkWeights:
  "linkWeights 7 tinyWeightFitterState = [tinyDouble, tinyDouble, tinyDouble]"
  by (simp add: linkWeights_def tinyWeightFitterState_def exampleFitterState_def)

text \<open>
  C2, as stated, fails: for three linked tracks of weight \<open>2 ^ -600\<close> the contamination
  of the formula is far above \<^verbatim>\<open>maximumVertexContamination\<close>, but each product
  \<open>w w\<close> underflows to 0, the denominator is 0, the contamination is taken as 0, and
  \<^verbatim>\<open>keepNewVertex\<close> returns true.
\<close>

theorem contamination_underflow_counterexample:
  "contaminationFormula (linkWeights 7 tinyWeightFitterState) >
     maximumVertexContamination exampleConfig \<and>
   keepNewVertex underflowExt exampleConfig exampleVertices 7 [7] tinyWeightFitterState =
     Inr True"
proof
  from contaminationFormula_equal_weights[OF tinyDouble_bounds]
  show "contaminationFormula (linkWeights 7 tinyWeightFitterState) >
          maximumVertexContamination exampleConfig"
    by (simp only: tiny_linkWeights) (simp add: exampleConfig_def)
next
  have c: "contamination underflowExt 7 tinyWeightFitterState = Inr 0"
    by (simp add: contamination_def tinyWeightFitterState_def exampleFitterState_def
        map_at_def underflowExt_arithmetic Let_def)
  show "keepNewVertex underflowExt exampleConfig exampleVertices 7 [7] tinyWeightFitterState =
          Inr True"
    by (simp add: keepNewVertex_def c isMergedVertex_def exampleConfig_def)
qed

text \<open>
  C2, amended. When every track link of the candidate has its entry in the fitter state,
  \<^verbatim>\<open>keepNewVertex\<close> computes the contamination in the arithmetic of doubles: the sum of
  the products \<open>w (1 - w)\<close> over the sum of the products \<open>w w\<close>, for the weights \<open>w\<close>
  of the linked tracks in the order of the links, each operation rounded, and 0 when the
  computed second sum is 0. It returns false whenever this computed contamination is
  above \<^verbatim>\<open>maximumVertexContamination\<close>, and otherwise returns whether the candidate is
  not merged.
\<close>

theorem keepNewVertex_computed_contamination:
  assumes "linksHaveEntries fs vtx"
  shows "contamination ext vtx fs = Inr (contaminationComputed ext (linkWeights vtx fs)) \<and>
         (contaminationComputed ext (linkWeights vtx fs) > maximumVertexContamination cfg \<longrightarrow>
            keepNewVertex ext cfg vertices vtx others fs = Inr False) \<and>
         (\<not> contaminationComputed ext (linkWeights vtx fs) > maximumVertexContamination cfg \<longrightarrow>
            keepNewVertex ext cfg vertices vtx others fs =
              Inr (\<not> isMergedVertex ext cfg vertices vtx others))"
  using contamination_value[OF assms, of ext] by (simp add: keepNewVertex_def)

lemma half_linksHaveEntries: "linksHaveEntries halfWeightFitterState 7"
  by (simp add: linksHaveEntries_def halfWeightFitterState_def exampleFitterState_def)

lemma half_linkWeights: "linkWeights 7 halfWeightFitterState = [1 / 2, 1 / 2, 1 / 2]"
  by (simp add: linkWeights_def halfWeightFitterState_def exampleFitterState_def)

theorem keepNewVertex_computed_contamination_witness:
  "linksHaveEntries halfWeightFitterState 7 \<and>
   contamination exampleExt 7 halfWeightFitterState = Inr 1 \<and>
   1 > maximumVertexContamination exampleConfig \<and>
   keepNewVertex exampleExt exampleConfig exampleVertices 7 [7] halfWeightFitterState = Inr False"
proof -
  have f: "contaminationComputed exampleExt (linkWeights 7 halfWeightFitterState) = 1"
    by (simp add: half_linkWeights contaminationComputed_def doubleSum_def exampleExt_def)
  have m: "1 > maximumVertexContamination exampleConfig"
    by (simp add: exampleConfig_def)
  show ?thesis
    using keepNewVertex_computed_contamination[OF half_linksHaveEntries,
        of exampleExt exampleConfig exampleVertices "[7]"]
      half_linksHaveEntries m
    by (simp add: f)
qed

lemma isMergedVertexLoop_iff:
  "isMergedVertexLoop ext cfg vertices vtx others =
     (\<exists>otherVtx\<in>set others. otherVtx \<noteq> vtx \<and>
        (\<exists>s. mergeSignificance ext cfg (vertices vtx) (vertices otherVtx) = Some s \<and>
             s < maxMergeVertexSignificance cfg))"
  by (induction others) (auto split: option.splits)

lemma mergeSignificance_z:
  assumes "\<not> do3dSplitting cfg"
  shows "mergeSignificance ext cfg V V' =
        (if dadd ext (fullCovariance V' eZ eZ) (fullCovariance V eZ eZ) \<le> 0 then None
         else Some (ddiv ext \<bar>dsub ext (fullPosition V' eZ) (fullPosition V eZ)\<bar>
                      (dsqrt ext (dadd ext (fullCovariance V' eZ eZ) (fullCovariance V eZ eZ)))))"
  using assms by (simp add: mergeSignificance_def Let_def std_sqrt_def)

lemma double_sum_exact: "double_0_2 + double_0_05 = 1 / 4 + 1 / 2 ^ 56"
  by (simp add: double_0_2_def double_0_05_def)

lemma roundingExt_sum: "dadd roundingExt double_0_2 double_0_05 = 1 / 4"
proof -
  have e: "(1 / 4 + 1 / 2 ^ 56) * 2 ^ 54 = (4503599627370496 + 1 / 4 :: real)"
    by simp
  have r: "round (4503599627370496 + 1 / 4 :: real) = 4503599627370496"
    by (simp add: round_def)
  have b: "(1 :: real) / 4 \<le> 1 / 4 + 1 / 2 ^ 56" "(1 :: real) / 4 + 1 / 2 ^ 56 < 1 / 2"
    by simp_all
  have d: "dadd roundingExt x y =
             (if 1 / 4 \<le> x + y \<and> x + y < 1 / 2
              then of_int (round ((x + y) * 2 ^ 54)) / 2 ^ 54 else x + y)" for x y
    by (simp add: roundingExt_def exampleExt_def)
  have "dadd roundingExt double_0_2 double_0_05 =
        of_int (round ((1 / 4 + 1 / 2 ^ 56) * 2 ^ 54 :: real)) / 2 ^ 54"
    unfolding d double_sum_exact by (rule if_P) (rule conjI[OF b])
  also have "\<dots> = 1 / 4" by (simp only: e r) simp
  finally show ?thesis .
qed

text \<open>
  C3, as stated, fails: for a candidate at z = 0 and an accepted vertex at z = 3/2 whose
  variances in z are the doubles nearest to 0.05 and 0.2, the significance of the formula
  is below the threshold 3, but the sum of the variances is rounded to 1/4, the computed
  significance is 3, which is not below 3, and \<^verbatim>\<open>isMergedVertex\<close> returns false.
\<close>

theorem merge_rounding_counterexample:
  "\<not> do3dSplitting exampleConfig \<and>
   0 < fullCovariance (roundingVertices 7) eZ eZ + fullCovariance (roundingVertices 8) eZ eZ \<and>
   zSignificanceFormula (roundingVertices 7) (roundingVertices 8) <
     maxMergeVertexSignificance exampleConfig \<and>
   \<not> isMergedVertex roundingExt exampleConfig roundingVertices 7 [8, 7]"
proof (intro conjI)
  show z: "\<not> do3dSplitting exampleConfig" by (simp add: exampleConfig_def)
  show "0 < fullCovariance (roundingVertices 7) eZ eZ + fullCovariance (roundingVertices 8) eZ eZ"
    by (simp add: roundingVertices_def eZ_def add.commute[of double_0_05] double_sum_exact)
  have "sqrt (1 / 4) < sqrt (double_0_05 + double_0_2)"
    by (subst real_sqrt_less_iff) (simp add: add.commute[of double_0_05] double_sum_exact)
  moreover have "sqrt (1 / 4) = 1 / 2" by (simp add: real_sqrt_divide)
  ultimately have r: "1 / 2 < sqrt (double_0_05 + double_0_2)"
    by simp
  then have pos: "0 < sqrt (double_0_05 + double_0_2)"
    and "3 / 2 < 3 * sqrt (double_0_05 + double_0_2)"
    by linarith+
  then have "(3 / 2) / sqrt (double_0_05 + double_0_2) < 3"
    by (simp only: pos_divide_less_eq[OF pos])
  then show "zSignificanceFormula (roundingVertices 7) (roundingVertices 8) <
          maxMergeVertexSignificance exampleConfig"
    by (simp add: zSignificanceFormula_def roundingVertices_def eZ_def exampleConfig_def)
  have a: "dsub roundingExt x y = x - y" "ddiv roundingExt x y = x / y"
    "dsqrt roundingExt x = sqrt x" for x y
    by (simp_all add: roundingExt_def exampleExt_def)
  have "mergeSignificance roundingExt exampleConfig (roundingVertices 7) (roundingVertices 8) =
        Some 3"
    by (simp add: mergeSignificance_z[OF z] roundingVertices_def eZ_def roundingExt_sum a
        real_sqrt_divide)
  then show "\<not> isMergedVertex roundingExt exampleConfig roundingVertices 7 [8, 7]"
    by (simp add: isMergedVertex_def exampleConfig_def)
qed

text \<open>
  C3, amended. \<^verbatim>\<open>isMergedVertex\<close> returns true exactly when some vertex of the list, at
  another address than the candidate, has a computed significance below
  \<^verbatim>\<open>maxMergeVertexSignificance\<close>. Without 3D splitting the significance of a pair is
  computed in the arithmetic of doubles, each operation rounded: the absolute value of
  the difference in z, over the square root of the sum of the two variances in z; a pair
  whose computed sum of variances is not positive has none. With 3D splitting a pair
  whose summed covariance \<^verbatim>\<open>safeInverse\<close> does not invert has none. A pair without
  significance is passed over.
\<close>

theorem isMergedVertex_computed_significance:
  "(isMergedVertex ext cfg vertices vtx others \<longleftrightarrow>
      (\<exists>otherVtx\<in>set others. otherVtx \<noteq> vtx \<and>
         (\<exists>s. mergeSignificance ext cfg (vertices vtx) (vertices otherVtx) = Some s \<and>
              s < maxMergeVertexSignificance cfg))) \<and>
   (\<not> do3dSplitting cfg \<longrightarrow>
      mergeSignificance ext cfg V V' =
        (if dadd ext (fullCovariance V' eZ eZ) (fullCovariance V eZ eZ) \<le> 0 then None
         else Some (ddiv ext \<bar>dsub ext (fullPosition V' eZ) (fullPosition V eZ)\<bar>
                      (dsqrt ext (dadd ext (fullCovariance V' eZ eZ) (fullCovariance V eZ eZ)))))) \<and>
   (do3dSplitting cfg \<and>
    safeInverse ext (if useTime cfg then 4 else 3)
      (\<lambda>i j. dadd ext (fullCovariance V i j) (fullCovariance V' i j)) = None \<longrightarrow>
      mergeSignificance ext cfg V V' = None)"
proof (intro conjI impI)
  show "isMergedVertex ext cfg vertices vtx others \<longleftrightarrow>
      (\<exists>otherVtx\<in>set others. otherVtx \<noteq> vtx \<and>
         (\<exists>s. mergeSignificance ext cfg (vertices vtx) (vertices otherVtx) = Some s \<and>
              s < maxMergeVertexSignificance cfg))"
    unfolding isMergedVertex_def by (rule isMergedVertexLoop_iff)
next
  assume "\<not> do3dSplitting cfg"
  then show "mergeSignificance ext cfg V V' =
        (if dadd ext (fullCovariance V' eZ eZ) (fullCovariance V eZ eZ) \<le> 0 then None
         else Some (ddiv ext \<bar>dsub ext (fullPosition V' eZ) (fullPosition V eZ)\<bar>
                      (dsqrt ext (dadd ext (fullCovariance V' eZ eZ) (fullCovariance V eZ eZ)))))"
    by (rule mergeSignificance_z)
next
  assume "do3dSplitting cfg \<and>
    safeInverse ext (if useTime cfg then 4 else 3)
      (\<lambda>i j. dadd ext (fullCovariance V i j) (fullCovariance V' i j)) = None"
  then show "mergeSignificance ext cfg V V' = None"
    by (simp add: mergeSignificance_def Let_def split: if_splits)
qed

theorem isMergedVertex_computed_significance_witness:
  "isMergedVertex exampleExt exampleConfig exampleVertices 7 [8, 7] \<and>
   mergeSignificance exampleExt exampleConfig (exampleVertices 7) (exampleVertices 8) = Some 1 \<and>
   safeInverse exampleExt 3 (\<lambda>i j. dadd exampleExt (fullCovariance zeroVertex i j)
     (fullCovariance zeroVertex i j)) = None \<and>
   \<not> isMergedVertex exampleExt (exampleConfig\<lparr>do3dSplitting := True\<rparr>) (\<lambda>v. zeroVertex) 7 [8, 7]"
proof -
  have z: "\<not> do3dSplitting exampleConfig" by (simp add: exampleConfig_def)
  have s: "mergeSignificance exampleExt exampleConfig (exampleVertices 7) (exampleVertices 8) = Some 1"
    using isMergedVertex_computed_significance[of exampleExt exampleConfig exampleVertices 7
        "[8, 7]" "exampleVertices 7" "exampleVertices 8"] z
    by (simp add: exampleVertices_def vertexAtZ_def eZ_def exampleExt_def)
  have m: "1 < maxMergeVertexSignificance exampleConfig" by (simp add: exampleConfig_def)
  have a: "isMergedVertex exampleExt exampleConfig exampleVertices 7 [8, 7]"
    using isMergedVertex_computed_significance[of exampleExt exampleConfig exampleVertices 7
        "[8, 7]"] s m
    by simp
  have d: "do3dSplitting (exampleConfig\<lparr>do3dSplitting := True\<rparr>)"
    "\<not> useTime (exampleConfig\<lparr>do3dSplitting := True\<rparr>)"
    by (simp_all add: exampleConfig_def)
  have i: "safeInverse exampleExt 3 (\<lambda>i j. dadd exampleExt (fullCovariance zeroVertex i j)
     (fullCovariance zeroVertex i j)) = None"
    by (simp add: exampleExt_def zeroVertex_def)
  have n: "mergeSignificance exampleExt (exampleConfig\<lparr>do3dSplitting := True\<rparr>)
             zeroVertex zeroVertex = None"
    using isMergedVertex_computed_significance[of exampleExt
        "exampleConfig\<lparr>do3dSplitting := True\<rparr>" exampleVertices 7 "[8, 7]" zeroVertex zeroVertex]
      d i
    by simp
  have b: "\<not> isMergedVertex exampleExt (exampleConfig\<lparr>do3dSplitting := True\<rparr>)
             (\<lambda>v. zeroVertex) 7 [8, 7]"
    using isMergedVertex_computed_significance[of exampleExt
        "exampleConfig\<lparr>do3dSplitting := True\<rparr>" "\<lambda>v. zeroVertex" 7 "[8, 7]"] n
    by simp
  from a s i b show ?thesis by simp
qed

section \<open>Properties of the impact parameter significance\<close>

lemma ipSignificanceFormula_d0:
  "0 < t \<Longrightarrow>
   ipSignificanceFormula cfg \<lparr>d0 = t, z0 = 0, sigmaD0 = 1, sigmaZ0 = 1,
     deltaT = None, sigmaDeltaT = None\<rparr> = t"
  by (simp add: ipSignificanceFormula_def split: bool.splits)

text \<open>
  C5, as stated, fails: for \<open>d0 = 2 ^ -600\<close>, \<open>z0 = 0\<close> and both deviations 1 the formula
  gives \<open>2 ^ -600\<close>, but the square underflows to 0 and \<^verbatim>\<open>getIPSignificance\<close> returns 0.
\<close>

theorem ip_significance_underflow_counterexample:
  "getImpactParameters underflowExt 2 zeroVertex 0 0 False =
     Inr \<lparr>d0 = tinyDouble, z0 = 0, sigmaD0 = 1, sigmaZ0 = 1,
          deltaT = None, sigmaDeltaT = None\<rparr> \<and>
   ipSignificanceFormula exampleConfig \<lparr>d0 = tinyDouble, z0 = 0, sigmaD0 = 1, sigmaZ0 = 1,
     deltaT = None, sigmaDeltaT = None\<rparr> = tinyDouble \<and>
   0 < tinyDouble \<and>
   getIPSignificance underflowExt exampleConfig 2 zeroVertex exampleOptions = Inr (Some 0)"
proof (intro conjI)
  show "0 < tinyDouble" by (rule tinyDouble_bounds)
  show e: "getImpactParameters underflowExt 2 zeroVertex 0 0 False =
     Inr \<lparr>d0 = tinyDouble, z0 = 0, sigmaD0 = 1, sigmaZ0 = 1,
          deltaT = None, sigmaDeltaT = None\<rparr>"
    by (simp add: underflowExt_def)
  from ipSignificanceFormula_d0[OF tinyDouble_bounds(1)]
  show "ipSignificanceFormula exampleConfig \<lparr>d0 = tinyDouble, z0 = 0, sigmaD0 = 1, sigmaZ0 = 1,
     deltaT = None, sigmaDeltaT = None\<rparr> = tinyDouble" .
  have g: "getImpactParameters underflowExt trk v g m u =
     Inr \<lparr>d0 = tinyDouble, z0 = 0, sigmaD0 = 1, sigmaZ0 = 1,
          deltaT = None, sigmaDeltaT = None\<rparr>" for trk v g m u
    by (simp add: underflowExt_def)
  show "getIPSignificance underflowExt exampleConfig 2 zeroVertex exampleOptions = Inr (Some 0)"
    by (simp add: getIPSignificance_def g chi2TimeOf_def exampleConfig_def std_sqrt_def
        underflowExt_arithmetic)
qed

text \<open>
  C5, amended. When the estimator returns impact parameters (with the time values present
  where the time term reads them), \<^verbatim>\<open>getIPSignificance\<close> returns 0 whenever \<open>\<sigma>d0\<close> or
  \<open>\<sigma>z0\<close> is not positive, and otherwise the square root of
  \<open>(d0 / \<sigma>d0)\<^sup>2 + (z0 / \<sigma>z0)\<^sup>2\<close> plus the time term, computed in the arithmetic of
  doubles with each quotient, square, sum and the root rounded; the time term is the
  computed \<open>(\<Delta>t / \<sigma>\<Delta>t)\<^sup>2\<close> when time is used and \<open>\<sigma>\<Delta>t\<close> is positive, and 0 otherwise.
\<close>

theorem getIPSignificance_computed:
  assumes "getImpactParameters ext track
             (if \<not> useVertexCovForIPEstimation cfg then vtx\<lparr>fullCovariance := (\<lambda>i j. 0)\<rparr> else vtx)
             (geoContext opts) (magFieldContext opts) (useTime cfg) = Inr ipas"
    and "useTime cfg \<longrightarrow> sigmaDeltaT ipas = Some sdt \<and> (sdt > 0 \<longrightarrow> deltaT ipas = Some dt)"
  shows "getIPSignificance ext cfg track vtx opts =
           Inr (if sigmaD0 ipas \<le> 0 \<or> sigmaZ0 ipas \<le> 0 then Some 0
                else std_sqrt ext
                       (dadd ext
                          (dadd ext (dpow2 ext (ddiv ext (d0 ipas) (sigmaD0 ipas)))
                                    (dpow2 ext (ddiv ext (z0 ipas) (sigmaZ0 ipas))))
                          (if useTime cfg \<and> sdt > 0 then dpow2 ext (ddiv ext dt sdt) else 0)))"
proof -
  have "chi2TimeOf ext cfg ipas =
          Inr (if useTime cfg \<and> sdt > 0 then dpow2 ext (ddiv ext dt sdt) else 0)"
    using assms(2) by (auto simp: chi2TimeOf_def)
  then show ?thesis using assms(1)
    by (auto simp: getIPSignificance_def Let_def not_le not_less)
qed

theorem getIPSignificance_computed_witness:
  "getImpactParameters exampleExt 2 ((vertexAtZ 20)\<lparr>fullCovariance := (\<lambda>i j. 0)\<rparr>) 0 0 True =
     Inr \<lparr>d0 = 3, z0 = 4, sigmaD0 = 1, sigmaZ0 = 1, deltaT = Some 12, sigmaDeltaT = Some 1\<rparr> \<and>
   getIPSignificance exampleExt (exampleConfig\<lparr>useTime := True\<rparr>) 2 (vertexAtZ 20)
     \<lparr>constraint = zeroVertex, useConstraintInFit = True, geoContext = 0, magFieldContext = 0\<rparr> =
     Inr (Some 13)"
proof -
  have e: "getImpactParameters exampleExt t v g m u =
     Inr \<lparr>d0 = 3, z0 = 4, sigmaD0 = 1, sigmaZ0 = 1, deltaT = Some 12, sigmaDeltaT = Some 1\<rparr>" for t v g m u
    by (simp add: exampleExt_def)
  have r: "sqrt 169 = 13" by simp
  have a: "dadd exampleExt x y = x + y" "ddiv exampleExt x y = x / y"
    "dpow2 exampleExt x = x ^ 2" "dsqrt exampleExt x = sqrt x" for x y
    by (simp_all add: exampleExt_def)
  show ?thesis
    using getIPSignificance_computed[of exampleExt 2 "exampleConfig\<lparr>useTime := True\<rparr>" "vertexAtZ 20"
        "\<lparr>constraint = zeroVertex, useConstraintInFit = True, geoContext = 0, magFieldContext = 0\<rparr>"
        "\<lparr>d0 = 3, z0 = 4, sigmaD0 = 1, sigmaZ0 = 1, deltaT = Some 12, sigmaDeltaT = Some 1\<rparr>" 1 12,
        OF e] e
    by (simp add: r a std_sqrt_def)
qed

section \<open>Properties of the seed-set maintenance\<close>

lemma findSeedIter_None: "findSeedIter trk xs = None \<longleftrightarrow> trk \<notin> set xs"
  by (induction xs) auto

lemma findSeedIter_Some:
  "findSeedIter trk xs = Some i \<Longrightarrow> i < length xs \<and> xs ! i = trk \<and> eraseAt i xs = remove1 trk xs"
proof (induction xs arbitrary: i)
  case Nil
  then show ?case by simp
next
  case (Cons x xs)
  show ?case
  proof (cases "trk = x")
    case True
    with Cons.prems show ?thesis by (simp add: eraseAt_def)
  next
    case False
    with Cons.prems obtain j where j: "findSeedIter trk xs = Some j" "i = Suc j" by auto
    from Cons.IH[OF j(1)] False j(2) show ?thesis by (simp add: eraseAt_def)
  qed
qed

lemma length_eraseAt: "i < length xs \<Longrightarrow> Suc (length (eraseAt i xs)) = length xs"
  by (auto simp: eraseAt_def)

lemma maxCompLoop_result:
  assumes "list_all (\<lambda>trk. tracksAtVerticesMap fs (trk, vtx) \<noteq> None) links"
  shows "\<exists>m' it' rt'. maxCompLoop vtx seed fs links (m, it, rt) = Inr (m', it', rt') \<and>
     (if \<exists>t\<in>set links. t \<in> set seed \<and> m < linkCompatibility vtx fs t
      then rt' \<in> set links \<and> rt' \<in> set seed \<and> m < linkCompatibility vtx fs rt' \<and>
           m' = linkCompatibility vtx fs rt' \<and> it' = findSeedIter rt' seed \<and>
           (\<forall>t\<in>set links. t \<in> set seed \<longrightarrow> linkCompatibility vtx fs t \<le> m')
      else (m', it', rt') = (m, it, rt))"
  using assms
proof (induction links arbitrary: m it rt)
  case Nil
  then show ?case by simp
next
  case (Cons trk rest)
  then obtain tav where tav: "tracksAtVerticesMap fs (trk, vtx) = Some tav" by auto
  then have lc: "linkCompatibility vtx fs trk = vertexCompatibility tav"
    by (simp add: linkCompatibility_def)
  from Cons.prems have rest: "list_all (\<lambda>trk. tracksAtVerticesMap fs (trk, vtx) \<noteq> None) rest"
    by simp
  show ?case
  proof (cases "m < vertexCompatibility tav \<and> trk \<in> set seed")
    case True
    then obtain i where i: "findSeedIter trk seed = Some i"
      using findSeedIter_None[of trk seed] by (cases "findSeedIter trk seed") auto
    have step: "maxCompLoop vtx seed fs (trk # rest) (m, it, rt) =
                maxCompLoop vtx seed fs rest (vertexCompatibility tav, Some i, trk)"
      using True tav i by (simp add: map_at_def Let_def)
    from Cons.IH[OF rest, of "vertexCompatibility tav" "Some i" trk]
    obtain m' it' rt' where r:
      "maxCompLoop vtx seed fs rest (vertexCompatibility tav, Some i, trk) = Inr (m', it', rt')"
      "if \<exists>t\<in>set rest. t \<in> set seed \<and> vertexCompatibility tav < linkCompatibility vtx fs t
       then rt' \<in> set rest \<and> rt' \<in> set seed \<and> vertexCompatibility tav < linkCompatibility vtx fs rt' \<and>
           m' = linkCompatibility vtx fs rt' \<and> it' = findSeedIter rt' seed \<and>
           (\<forall>t\<in>set rest. t \<in> set seed \<longrightarrow> linkCompatibility vtx fs t \<le> m')
       else (m', it', rt') = (vertexCompatibility tav, Some i, trk)"
      by blast
    have ex: "\<exists>t\<in>set (trk # rest). t \<in> set seed \<and> m < linkCompatibility vtx fs t"
      using True lc by auto
    show ?thesis
    proof (cases "\<exists>t\<in>set rest. t \<in> set seed \<and> vertexCompatibility tav < linkCompatibility vtx fs t")
      case e: True
      with r(2) have p: "rt' \<in> set rest" "rt' \<in> set seed"
        "vertexCompatibility tav < linkCompatibility vtx fs rt'"
        "m' = linkCompatibility vtx fs rt'" "it' = findSeedIter rt' seed"
        "\<forall>t\<in>set rest. t \<in> set seed \<longrightarrow> linkCompatibility vtx fs t \<le> m'"
        by auto
      have "m < linkCompatibility vtx fs rt'" using True p(3) by simp
      moreover have "\<forall>t\<in>set (trk # rest). t \<in> set seed \<longrightarrow> linkCompatibility vtx fs t \<le> m'"
        using p(3,4,6) lc by auto
      ultimately show ?thesis using step r(1) ex p by simp
    next
      case e: False
      with r(2) have p: "m' = vertexCompatibility tav" "it' = Some i" "rt' = trk" by simp_all
      have "\<forall>t\<in>set (trk # rest). t \<in> set seed \<longrightarrow> linkCompatibility vtx fs t \<le> m'"
        using e p lc by (auto simp: not_less)
      then show ?thesis using step r(1) ex p True lc i by simp
    qed
  next
    case False
    have step: "maxCompLoop vtx seed fs (trk # rest) (m, it, rt) =
                maxCompLoop vtx seed fs rest (m, it, rt)"
      using False tav findSeedIter_None[of trk seed]
      by (auto simp: map_at_def Let_def split: option.splits)
    from Cons.IH[OF rest, of m it rt]
    obtain m' it' rt' where r:
      "maxCompLoop vtx seed fs rest (m, it, rt) = Inr (m', it', rt')"
      "if \<exists>t\<in>set rest. t \<in> set seed \<and> m < linkCompatibility vtx fs t
       then rt' \<in> set rest \<and> rt' \<in> set seed \<and> m < linkCompatibility vtx fs rt' \<and>
           m' = linkCompatibility vtx fs rt' \<and> it' = findSeedIter rt' seed \<and>
           (\<forall>t\<in>set rest. t \<in> set seed \<longrightarrow> linkCompatibility vtx fs t \<le> m')
       else (m', it', rt') = (m, it, rt)"
      by blast
    have nt: "\<not> (trk \<in> set seed \<and> m < linkCompatibility vtx fs trk)" using False lc by auto
    show ?thesis
    proof (cases "\<exists>t\<in>set rest. t \<in> set seed \<and> m < linkCompatibility vtx fs t")
      case e: True
      with r(2) have p: "rt' \<in> set rest" "rt' \<in> set seed"
        "m < linkCompatibility vtx fs rt'"
        "m' = linkCompatibility vtx fs rt'" "it' = findSeedIter rt' seed"
        "\<forall>t\<in>set rest. t \<in> set seed \<longrightarrow> linkCompatibility vtx fs t \<le> m'"
        by auto
      have "\<forall>t\<in>set (trk # rest). t \<in> set seed \<longrightarrow> linkCompatibility vtx fs t \<le> m'"
        using p(3,4,6) nt by (auto simp: not_less)
      moreover have "\<exists>t\<in>set (trk # rest). t \<in> set seed \<and> m < linkCompatibility vtx fs t"
        using e by auto
      ultimately show ?thesis using step r(1) p by simp
    next
      case e: False
      with r(2) have p: "(m', it', rt') = (m, it, rt)" by simp
      have "\<not> (\<exists>t\<in>set (trk # rest). t \<in> set seed \<and> m < linkCompatibility vtx fs t)"
        using e nt by auto
      then show ?thesis using step r(1) p by (simp only: if_False) simp
    qed
  qed
qed

lemma smallestDzLoop_result:
  "\<exists>d' it' rt'. smallestDzLoop ext geo vz xs i (d, it, rt) = (d', it', rt') \<and>
     (if \<exists>t\<in>set xs. \<bar>dsub ext (trackPosition ext t geo eZ) vz\<bar> < d
      then \<exists>k<length xs. it' = Some (i + k) \<and> rt' = xs ! k \<and>
             d' = \<bar>dsub ext (trackPosition ext (xs ! k) geo eZ) vz\<bar> \<and> d' < d \<and>
             (\<forall>t\<in>set xs. d' \<le> \<bar>dsub ext (trackPosition ext t geo eZ) vz\<bar>)
      else (d', it', rt') = (d, it, rt))"
proof (induction xs arbitrary: i d it rt)
  case Nil
  then show ?case by simp
next
  case (Cons x xs)
  define dist where "dist t = \<bar>dsub ext (trackPosition ext t geo eZ) vz\<bar>" for t
  note IH = Cons.IH[folded dist_def]
  show ?case unfolding dist_def[symmetric]
  proof (cases "dist x < d")
    case True
    have step: "smallestDzLoop ext geo vz (x # xs) i (d, it, rt) =
                smallestDzLoop ext geo vz xs (Suc i) (dist x, Some i, x)"
      using True by (simp add: dist_def Let_def)
    from IH[of "Suc i" "dist x" "Some i" x]
    obtain d' it' rt' where r:
      "smallestDzLoop ext geo vz xs (Suc i) (dist x, Some i, x) = (d', it', rt')"
      "if \<exists>t\<in>set xs. dist t < dist x
       then \<exists>k<length xs. it' = Some (Suc i + k) \<and> rt' = xs ! k \<and>
             d' = dist (xs ! k) \<and> d' < dist x \<and> (\<forall>t\<in>set xs. d' \<le> dist t)
       else (d', it', rt') = (dist x, Some i, x)"
      by blast
    have ex: "\<exists>t\<in>set (x # xs). dist t < d" using True by auto
    have "\<exists>k<length (x # xs). it' = Some (i + k) \<and> rt' = (x # xs) ! k \<and>
             d' = dist ((x # xs) ! k) \<and> d' < d \<and> (\<forall>t\<in>set (x # xs). d' \<le> dist t)"
    proof (cases "\<exists>t\<in>set xs. dist t < dist x")
      case e: True
      with r(2) obtain k where k: "k < length xs" "it' = Some (Suc i + k)" "rt' = xs ! k"
        "d' = dist (xs ! k)" "d' < dist x" "\<forall>t\<in>set xs. d' \<le> dist t"
        by auto
      show ?thesis
        by (rule exI[of _ "Suc k"]) (use k True in auto)
    next
      case e: False
      with r(2) have p: "d' = dist x" "it' = Some i" "rt' = x" by auto
      show ?thesis
        by (rule exI[of _ 0]) (use p e True in \<open>auto simp: not_less\<close>)
    qed
    then show "\<exists>d' it' rt'. smallestDzLoop ext geo vz (x # xs) i (d, it, rt) = (d', it', rt') \<and>
       (if \<exists>t\<in>set (x # xs). dist t < d
        then \<exists>k<length (x # xs). it' = Some (i + k) \<and> rt' = (x # xs) ! k \<and>
             d' = dist ((x # xs) ! k) \<and> d' < d \<and> (\<forall>t\<in>set (x # xs). d' \<le> dist t)
        else (d', it', rt') = (d, it, rt))"
      using step r(1) ex by (simp only: if_True) blast
  next
    case False
    have step: "smallestDzLoop ext geo vz (x # xs) i (d, it, rt) =
                smallestDzLoop ext geo vz xs (Suc i) (d, it, rt)"
      using False by (simp add: dist_def Let_def)
    from IH[of "Suc i" d it rt]
    obtain d' it' rt' where r:
      "smallestDzLoop ext geo vz xs (Suc i) (d, it, rt) = (d', it', rt')"
      "if \<exists>t\<in>set xs. dist t < d
       then \<exists>k<length xs. it' = Some (Suc i + k) \<and> rt' = xs ! k \<and>
             d' = dist (xs ! k) \<and> d' < d \<and> (\<forall>t\<in>set xs. d' \<le> dist t)
       else (d', it', rt') = (d, it, rt)"
      by blast
    show "\<exists>d' it' rt'. smallestDzLoop ext geo vz (x # xs) i (d, it, rt) = (d', it', rt') \<and>
       (if \<exists>t\<in>set (x # xs). dist t < d
        then \<exists>k<length (x # xs). it' = Some (i + k) \<and> rt' = (x # xs) ! k \<and>
             d' = dist ((x # xs) ! k) \<and> d' < d \<and> (\<forall>t\<in>set (x # xs). d' \<le> dist t)
        else (d', it', rt') = (d, it, rt))"
    proof (cases "\<exists>t\<in>set xs. dist t < d")
      case e: True
      with r(2) obtain k where k: "k < length xs" "it' = Some (Suc i + k)" "rt' = xs ! k"
        "d' = dist (xs ! k)" "d' < d" "\<forall>t\<in>set xs. d' \<le> dist t"
        by auto
      have "\<exists>k<length (x # xs). it' = Some (i + k) \<and> rt' = (x # xs) ! k \<and>
             d' = dist ((x # xs) ! k) \<and> d' < d \<and> (\<forall>t\<in>set (x # xs). d' \<le> dist t)"
        by (rule exI[of _ "Suc k"]) (use k False in auto)
      moreover have "\<exists>t\<in>set (x # xs). dist t < d" using e by auto
      ultimately show ?thesis using step r(1) by (simp only: if_True) blast
    next
      case e: False
      with r(2) have p: "(d', it', rt') = (d, it, rt)" by simp
      have "\<not> (\<exists>t\<in>set (x # xs). dist t < d)" using e False by auto
      then show ?thesis using step r(1) p by (simp only: if_False) simp
    qed
  qed
qed

lemma DBL_MAX_pos: "0 < DBL_MAX"
  by (simp add: DBL_MAX_def)

text \<open>
  C6, as stated, fails in two places. With one seed track whose distance in z from the
  vertex is the largest double, and no links, neither rule finds a track and the
  function returns false although the seed tracks are not empty. And with seed tracks
  at \<open>z = 0\<close> and \<open>z = 2 ^ -60\<close>, a vertex at \<open>z = 100\<close> and no links, both computed
  distances are 100 and the function removes the first track, which is not the one with
  the smallest distance.
\<close>

theorem removeTrackIfIncompatible_nonempty_counterexample:
  "removeTrackIfIncompatible farExt zeroVertex 9 [2] exampleFitterState [] 0 =
     Inr (False, [2], []) \<and> [2 :: InputTrack] \<noteq> [] \<and>
   removeTrackIfIncompatible absorbingExt (vertexAtZ 100) 9 [2, 3] exampleFitterState [] 0 =
     Inr (True, [3], [2]) \<and>
   \<bar>trackPosition absorbingExt 3 0 eZ - position (vertexAtZ 100) eZ\<bar> <
     \<bar>trackPosition absorbingExt 2 0 eZ - position (vertexAtZ 100) eZ\<bar>"
proof (intro conjI)
  show "removeTrackIfIncompatible farExt zeroVertex 9 [2] exampleFitterState [] 0 =
     Inr (False, [2], [])"
    using DBL_MAX_pos
    by (simp add: removeTrackIfIncompatible_def exampleFitterState_def farExt_def exampleExt_def
        zeroVertex_def position_def eZ_def)
  show "[2 :: InputTrack] \<noteq> []" by simp
  have d: "dsub absorbingExt x 100 = - 100" if "\<bar>x\<bar> * 2 ^ 54 < 100" for x
    using that by (simp add: absorbingExt_def underflowExt_def exampleExt_def)
  have t: "trackPosition absorbingExt trk g i = (if i = 2 \<and> trk = 3 then 1 / 2 ^ 60 else 0)"
    for trk g i
    by (simp add: absorbingExt_def)
  have m: "(100 :: real) < DBL_MAX" by (simp add: DBL_MAX_def)
  show "removeTrackIfIncompatible absorbingExt (vertexAtZ 100) 9 [2, 3] exampleFitterState [] 0 =
     Inr (True, [3], [2])"
    using m
    by (simp add: removeTrackIfIncompatible_def exampleFitterState_def t d
        vertexAtZ_def position_def eZ_def eraseAt_def)
  show "\<bar>trackPosition absorbingExt 3 0 eZ - position (vertexAtZ 100) eZ\<bar> <
     \<bar>trackPosition absorbingExt 2 0 eZ - position (vertexAtZ 100) eZ\<bar>"
    by (simp add: absorbingExt_def vertexAtZ_def position_def eZ_def)
qed

text \<open>
  C6, amended. With an entry for every link and fewer than \<open>2 ^ 32\<close> seed tracks,
  \<^verbatim>\<open>removeTrackIfIncompatible\<close> returns normally. If some link is present in the seed
  tracks with a compatibility above 0, it erases from the seed tracks such a link of
  maximum compatibility and appends it to the removed seed tracks. If there is none and
  the distance in z of some seed track from the vertex, as the subtraction of doubles
  gives it, is below the largest double, it erases a seed track whose computed distance
  is smallest and appends it. It returns false exactly when neither rule finds a track,
  and then changes nothing; this is the case when the seed tracks are empty.
\<close>

theorem removeTrackIfIncompatible_rules:
  assumes "linksHaveEntries fs vtx" and "length seed < 2 ^ 32"
  shows "\<exists>ok seed' removed'.
     removeTrackIfIncompatible ext V vtx seed fs removed geo = Inr (ok, seed', removed') \<and>
     (ok \<longleftrightarrow> positiveSeedLinks vtx seed fs \<noteq> [] \<or> nearSeedTracks ext geo V seed \<noteq> []) \<and>
     (positiveSeedLinks vtx seed fs \<noteq> [] \<longrightarrow>
        (\<exists>trk\<in>set (positiveSeedLinks vtx seed fs).
           (\<forall>t\<in>set (positiveSeedLinks vtx seed fs).
              linkCompatibility vtx fs t \<le> linkCompatibility vtx fs trk) \<and>
           seed' = remove1 trk seed \<and> removed' = removed @ [trk])) \<and>
     (positiveSeedLinks vtx seed fs = [] \<and> nearSeedTracks ext geo V seed \<noteq> [] \<longrightarrow>
        (\<exists>i<length seed.
           (\<forall>t\<in>set seed. zDistance ext geo V (seed ! i) \<le> zDistance ext geo V t) \<and>
           seed' = eraseAt i seed \<and> removed' = removed @ [seed ! i])) \<and>
     (\<not> ok \<longrightarrow> seed' = seed \<and> removed' = removed) \<and>
     (seed = [] \<longrightarrow> \<not> ok)"
proof -
  let ?links = "trackLinks (vtxInfoMap fs vtx)"
  from assms(1) have ent: "list_all (\<lambda>trk. tracksAtVerticesMap fs (trk, vtx) \<noteq> None) ?links"
    by (simp add: linksHaveEntries_def)
  from maxCompLoop_result[OF ent, of seed 0 None nullptr]
  obtain m' it' rt' where r:
    "maxCompLoop vtx seed fs ?links (0, None, nullptr) = Inr (m', it', rt')"
    "if \<exists>t\<in>set ?links. t \<in> set seed \<and> 0 < linkCompatibility vtx fs t
      then rt' \<in> set ?links \<and> rt' \<in> set seed \<and> 0 < linkCompatibility vtx fs rt' \<and>
           m' = linkCompatibility vtx fs rt' \<and> it' = findSeedIter rt' seed \<and>
           (\<forall>t\<in>set ?links. t \<in> set seed \<longrightarrow> linkCompatibility vtx fs t \<le> m')
      else (m', it', rt') = (0, None, nullptr)"
    by blast
  have pos_iff: "positiveSeedLinks vtx seed fs \<noteq> [] \<longleftrightarrow>
                 (\<exists>t\<in>set ?links. t \<in> set seed \<and> 0 < linkCompatibility vtx fs t)"
    by (auto simp: positiveSeedLinks_def filter_empty_conv)
  have pos_set: "set (positiveSeedLinks vtx seed fs) =
                 {t \<in> set ?links. t \<in> set seed \<and> 0 < linkCompatibility vtx fs t}"
    by (auto simp: positiveSeedLinks_def)
  have near_iff: "nearSeedTracks ext geo V seed \<noteq> [] \<longleftrightarrow>
                  (\<exists>t\<in>set seed. \<bar>dsub ext (trackPosition ext t geo eZ) (position V eZ)\<bar> < DBL_MAX)"
    by (auto simp: nearSeedTracks_def filter_empty_conv zDistance_def)
  show ?thesis
  proof (cases "positiveSeedLinks vtx seed fs \<noteq> []")
    case True
    with pos_iff have ex: "\<exists>t\<in>set ?links. t \<in> set seed \<and> 0 < linkCompatibility vtx fs t"
      by simp
    have "rt' \<in> set ?links \<and> rt' \<in> set seed \<and> 0 < linkCompatibility vtx fs rt' \<and>
           m' = linkCompatibility vtx fs rt' \<and> it' = findSeedIter rt' seed \<and>
           (\<forall>t\<in>set ?links. t \<in> set seed \<longrightarrow> linkCompatibility vtx fs t \<le> m')"
      using r(2) unfolding if_P[OF ex] .
    then have p: "rt' \<in> set ?links" "rt' \<in> set seed"
      "0 < linkCompatibility vtx fs rt'" "m' = linkCompatibility vtx fs rt'"
      "it' = findSeedIter rt' seed"
      "\<forall>t\<in>set ?links. t \<in> set seed \<longrightarrow> linkCompatibility vtx fs t \<le> m'"
      by blast+
    from p(2) obtain i where i: "findSeedIter rt' seed = Some i"
      using findSeedIter_None[of rt' seed] by (cases "findSeedIter rt' seed") auto
    from findSeedIter_Some[OF i] have er: "eraseAt i seed = remove1 rt' seed" by simp
    have res: "removeTrackIfIncompatible ext V vtx seed fs removed geo =
                 Inr (True, remove1 rt' seed, removed @ [rt'])"
      using r(1) p(5) i er by (simp add: removeTrackIfIncompatible_def)
    have mem: "rt' \<in> set (positiveSeedLinks vtx seed fs)" using p(1,2,3) pos_set by simp
    have mx: "\<forall>t\<in>set (positiveSeedLinks vtx seed fs).
              linkCompatibility vtx fs t \<le> linkCompatibility vtx fs rt'"
      using p(4,6) pos_set by auto
    have ne: "seed \<noteq> []" using p(2) by auto
    show ?thesis using res True mem mx ne by auto
  next
    case False
    with pos_iff have nex: "\<not> (\<exists>t\<in>set ?links. t \<in> set seed \<and> 0 < linkCompatibility vtx fs t)"
      by simp
    have "(m', it', rt') = (0, None, nullptr)" using r(2) unfolding if_not_P[OF nex] .
    then have p: "m' = 0" "it' = None" "rt' = nullptr" by simp_all
    from smallestDzLoop_result[of ext geo "position V eZ" seed 0 DBL_MAX None nullptr]
    obtain d' it2 rt2 where q:
      "smallestDzLoop ext geo (position V eZ) seed 0 (DBL_MAX, None, nullptr) = (d', it2, rt2)"
      "if \<exists>t\<in>set seed. \<bar>dsub ext (trackPosition ext t geo eZ) (position V eZ)\<bar> < DBL_MAX
       then \<exists>k<length seed. it2 = Some (0 + k) \<and> rt2 = seed ! k \<and>
             d' = \<bar>dsub ext (trackPosition ext (seed ! k) geo eZ) (position V eZ)\<bar> \<and> d' < DBL_MAX \<and>
             (\<forall>t\<in>set seed. d' \<le> \<bar>dsub ext (trackPosition ext t geo eZ) (position V eZ)\<bar>)
       else (d', it2, rt2) = (DBL_MAX, None, nullptr)"
      by blast
    have len: "\<not> (4294967296 \<le> length seed)" using assms(2) by simp
    show ?thesis
    proof (cases "nearSeedTracks ext geo V seed \<noteq> []")
      case n: True
      with near_iff have ex: "\<exists>t\<in>set seed. \<bar>dsub ext (trackPosition ext t geo eZ) (position V eZ)\<bar> < DBL_MAX"
        by simp
      have "\<exists>k<length seed. it2 = Some (0 + k) \<and> rt2 = seed ! k \<and>
             d' = \<bar>dsub ext (trackPosition ext (seed ! k) geo eZ) (position V eZ)\<bar> \<and> d' < DBL_MAX \<and>
             (\<forall>t\<in>set seed. d' \<le> \<bar>dsub ext (trackPosition ext t geo eZ) (position V eZ)\<bar>)"
        using q(2) unfolding if_P[OF ex] .
      then obtain k where k: "k < length seed" "it2 = Some k" "rt2 = seed ! k"
        "d' = \<bar>dsub ext (trackPosition ext (seed ! k) geo eZ) (position V eZ)\<bar>"
        "\<forall>t\<in>set seed. d' \<le> \<bar>dsub ext (trackPosition ext t geo eZ) (position V eZ)\<bar>"
        by auto
      have res: "removeTrackIfIncompatible ext V vtx seed fs removed geo =
                 Inr (True, eraseAt k seed, removed @ [seed ! k])"
        using r(1) p q(1) k(2,3) len by (simp add: removeTrackIfIncompatible_def)
      have mn: "\<forall>t\<in>set seed. zDistance ext geo V (seed ! k) \<le> zDistance ext geo V t"
        using k(4,5) by (simp add: zDistance_def)
      have ne: "seed \<noteq> []" using k(1) by auto
      show ?thesis using res False n mn k(1) ne by auto
    next
      case n: False
      with near_iff have nex: "\<not> (\<exists>t\<in>set seed. \<bar>dsub ext (trackPosition ext t geo eZ) (position V eZ)\<bar> < DBL_MAX)"
        by simp
      have "(d', it2, rt2) = (DBL_MAX, None, nullptr)" using q(2) unfolding if_not_P[OF nex] .
      then have k: "it2 = None" by simp
      have res: "removeTrackIfIncompatible ext V vtx seed fs removed geo =
                 Inr (False, seed, removed)"
        using r(1) p q(1) k len by (simp add: removeTrackIfIncompatible_def)
      show ?thesis using res False n by auto
    qed
  qed
qed

theorem removeTrackIfIncompatible_rules_witness:
  "linksHaveEntries exampleFitterState 7 \<and> length [2, 3, 4 :: InputTrack] < 2 ^ 32 \<and>
   positiveSeedLinks 7 [2, 3, 4] exampleFitterState \<noteq> [] \<and>
   (\<exists>seed' removed'.
      removeTrackIfIncompatible exampleExt (vertexAtZ 20) 7 [2, 3, 4] exampleFitterState [] 0 =
        Inr (True, seed', removed'))"
proof -
  have len: "length [2, 3, 4 :: InputTrack] < 2 ^ 32" by simp
  have pos: "positiveSeedLinks 7 [2, 3, 4] exampleFitterState \<noteq> []"
    by (simp add: positiveSeedLinks_def exampleFitterState_def linkCompatibility_def
        exampleTrackAtVertex_def)
  show ?thesis
    using removeTrackIfIncompatible_rules[OF example_linksHaveEntries len,
        of exampleExt "vertexAtZ 20" "[]" 0] example_linksHaveEntries len pos
    by auto
qed

section \<open>Properties of the finder driver\<close>

text \<open>Nothing in the loop body reads \<^verbatim>\<open>maxIterations\<close>.\<close>

lemma isCompatible_maxIterations:
  "isCompatible (cfg\<lparr>maxIterations := k\<rparr>) t = isCompatible cfg t"
  by (simp add: isCompatible_def)

lemma checkLoop_maxIterations:
  "checkLoop (cfg\<lparr>maxIterations := k\<rparr>) vtx seed fs useC links n =
   checkLoop cfg vtx seed fs useC links n"
  by (induction links arbitrary: n) (auto simp: isCompatible_maxIterations split: sum.splits)

lemma removeCompatibleLoop_maxIterations:
  "removeCompatibleLoop (cfg\<lparr>maxIterations := k\<rparr>) vtx fs links acc =
   removeCompatibleLoop cfg vtx fs links acc"
proof (induction links arbitrary: acc)
  case Nil
  show ?case by (cases acc) simp
next
  case (Cons trk rest)
  show ?case
    by (cases acc) (simp add: isCompatible_maxIterations Cons split: sum.splits option.splits)
qed

lemma mergeSignificance_maxIterations:
  "mergeSignificance ext (cfg\<lparr>maxIterations := k\<rparr>) v w = mergeSignificance ext cfg v w"
  by (simp add: mergeSignificance_def Let_def cong: if_cong)

lemma isMergedVertexLoop_maxIterations:
  "isMergedVertexLoop ext (cfg\<lparr>maxIterations := k\<rparr>) vertices vtx others =
   isMergedVertexLoop ext cfg vertices vtx others"
  by (induction others) (auto simp: mergeSignificance_maxIterations split: option.splits)

lemma keepNewVertex_maxIterations:
  "keepNewVertex ext (cfg\<lparr>maxIterations := k\<rparr>) vertices vtx others fs =
   keepNewVertex ext cfg vertices vtx others fs"
  by (simp add: keepNewVertex_def isMergedVertex_def isMergedVertexLoop_maxIterations
      split: sum.splits)

lemma chi2TimeOf_maxIterations:
  "chi2TimeOf ext (cfg\<lparr>maxIterations := k\<rparr>) ipas = chi2TimeOf ext cfg ipas"
  by (simp add: chi2TimeOf_def)

lemma getIPSignificance_maxIterations:
  "getIPSignificance ext (cfg\<lparr>maxIterations := k\<rparr>) trk v opts =
   getIPSignificance ext cfg trk v opts"
  by (simp add: getIPSignificance_def chi2TimeOf_maxIterations Let_def
      cong: if_cong sum.case_cong)

lemma addCompatibleLoop_maxIterations:
  "addCompatibleLoop ext (cfg\<lparr>maxIterations := k\<rparr>) opts v vtx tracks fs =
   addCompatibleLoop ext cfg opts v vtx tracks fs"
  by (induction tracks arbitrary: fs)
     (auto simp: getIPSignificance_maxIterations Let_def split: sum.splits option.splits)

lemma canPrepareVertexForFit_maxIterations:
  "canPrepareVertexForFit ext (cfg\<lparr>maxIterations := k\<rparr>) tracks seed vtx cc h opts =
   canPrepareVertexForFit ext cfg tracks seed vtx cc h opts"
  by (cases h) (simp add: addCompatibleLoop_maxIterations Let_def split: sum.splits prod.splits cong: if_cong)

lemma doSeeding_maxIterations:
  "doSeeding ext (cfg\<lparr>maxIterations := k\<rparr>) tracks cc opts sfs removed =
   doSeeding ext cfg tracks cc opts sfs removed"
  by (simp add: doSeeding_def setConstraintAfterSeeding_def Let_def split: sum.splits prod.splits cong: if_cong)

lemma evaluateCandidate_maxIterations:
  "evaluateCandidate ext (cfg\<lparr>maxIterations := k\<rparr>) opts vtx s =
   evaluateCandidate ext cfg opts vtx s"
  by (simp add: evaluateCandidate_def checkVertexAndCompatibleTracks_def
      removeCompatibleTracksFromSeedTracks_def checkLoop_maxIterations
      removeCompatibleLoop_maxIterations keepNewVertex_maxIterations Let_def
      split: sum.splits prod.splits cong: if_cong)

lemma loopBody_maxIterations:
  "loopBody ext (cfg\<lparr>maxIterations := k\<rparr>) orig opts s = loopBody ext cfg orig opts s"
  by (simp add: loopBody_def doSeeding_maxIterations canPrepareVertexForFit_maxIterations
      evaluateCandidate_maxIterations Let_def split: sum.splits prod.splits cong: if_cong)

text \<open>How the seed tracks shrink in the second half of the loop body.\<close>

lemma findSeedIter_less: "findSeedIter trk xs = Some i \<Longrightarrow> i < length xs"
  by (induction xs arbitrary: i) (auto split: if_splits)

lemma checkLoop_counted:
  "checkLoop cfg vtx seed fs useC links n = Inr (n', g) \<Longrightarrow> n < n' \<Longrightarrow>
   \<exists>trk\<in>set links. countsAsCompatible cfg vtx seed fs trk"
proof (induction links arbitrary: n)
  case Nil
  then show ?case by simp
next
  case (Cons trk rest)
  show ?case
  proof (cases "countsAsCompatible cfg vtx seed fs trk")
    case True
    then show ?thesis by simp
  next
    case False
    from Cons.prems(1) obtain tav where tav: "tracksAtVerticesMap fs (trk, vtx) = Some tav"
      by (auto simp: map_at_def split: option.splits)
    with False have "\<not> (isCompatible cfg tav \<and> trk \<in> set seed)"
      by (simp add: countsAsCompatible_def)
    with Cons.prems(1) tav have "checkLoop cfg vtx seed fs useC rest n = Inr (n', g)"
      by (auto simp: map_at_def split: if_splits)
    from Cons.IH[OF this Cons.prems(2)] show ?thesis by auto
  qed
qed

lemma removeCompatibleLoop_shrinks:
  "removeCompatibleLoop cfg vtx fs links (seed, removed) = Inr (seed', removed') \<Longrightarrow>
   length seed' \<le> length seed \<and>
   ((\<exists>trk\<in>set links. countsAsCompatible cfg vtx seed fs trk) \<longrightarrow> length seed' < length seed)"
proof (induction links arbitrary: seed removed)
  case Nil
  then show ?case by simp
next
  case (Cons trk rest)
  from Cons.prems obtain tav where tav: "tracksAtVerticesMap fs (trk, vtx) = Some tav"
    by (auto simp: map_at_def split: option.splits)
  show ?case
  proof (cases "isCompatible cfg tav \<and> trk \<in> set seed")
    case True
    then obtain i where i: "findSeedIter trk seed = Some i"
      using findSeedIter_None[of trk seed] by (cases "findSeedIter trk seed") auto
    with Cons.prems tav True have
      "removeCompatibleLoop cfg vtx fs rest (eraseAt i seed, removed @ [trk]) = Inr (seed', removed')"
      by (simp add: map_at_def)
    from Cons.IH[OF this] have "length seed' \<le> length (eraseAt i seed)" by simp
    moreover have "Suc (length (eraseAt i seed)) = length seed"
      using length_eraseAt[OF findSeedIter_less[OF i]] .
    ultimately show ?thesis by simp
  next
    case False
    with Cons.prems tav findSeedIter_None[of trk seed] have
      "removeCompatibleLoop cfg vtx fs rest (seed, removed) = Inr (seed', removed')"
      by (auto simp: map_at_def split: if_splits option.splits)
    from Cons.IH[OF this] False tav show ?thesis
      by (auto simp: countsAsCompatible_def)
  qed
qed

lemma maxCompLoop_index:
  "maxCompLoop vtx seed fs links (m, it, rt) = Inr (m', it', rt') \<Longrightarrow>
   (\<forall>i. it = Some i \<longrightarrow> i < length seed) \<Longrightarrow> it' = Some i' \<Longrightarrow> i' < length seed"
proof (induction links arbitrary: m it rt)
  case Nil
  then show ?case by simp
next
  case (Cons trk rest)
  from Cons.prems(1) obtain tav where tav: "tracksAtVerticesMap fs (trk, vtx) = Some tav"
    by (auto simp: map_at_def split: option.splits)
  show ?case
  proof (cases "m < vertexCompatibility tav \<and> findSeedIter trk seed \<noteq> None")
    case True
    then obtain i where i: "findSeedIter trk seed = Some i" by auto
    with Cons.prems(1) tav True have
      "maxCompLoop vtx seed fs rest (vertexCompatibility tav, Some i, trk) = Inr (m', it', rt')"
      by (simp add: map_at_def Let_def)
    from Cons.IH[OF this _ Cons.prems(3)] findSeedIter_less[OF i] show ?thesis by simp
  next
    case False
    with Cons.prems(1) tav have
      "maxCompLoop vtx seed fs rest (m, it, rt) = Inr (m', it', rt')"
      by (auto simp: map_at_def Let_def split: if_splits option.splits)
    from Cons.IH[OF this Cons.prems(2,3)] show ?thesis .
  qed
qed

lemma smallestDzLoop_index:
  "smallestDzLoop ext geo vz xs i (d, it, rt) = (d', it', rt') \<Longrightarrow>
   (\<forall>j. it = Some j \<longrightarrow> j < i) \<Longrightarrow> it' = Some k \<Longrightarrow> k < i + length xs"
proof (induction xs arbitrary: i d it rt)
  case Nil
  then show ?case by simp
next
  case (Cons x xs)
  show ?case
  proof (cases "\<bar>dsub ext (trackPosition ext x geo eZ) vz\<bar> < d")
    case True
    with Cons.prems(1) have
      "smallestDzLoop ext geo vz xs (Suc i) (\<bar>dsub ext (trackPosition ext x geo eZ) vz\<bar>, Some i, x) = (d', it', rt')"
      by (simp add: Let_def)
    from Cons.IH[OF this _ Cons.prems(3)] show ?thesis by simp
  next
    case False
    with Cons.prems(1) have
      "smallestDzLoop ext geo vz xs (Suc i) (d, it, rt) = (d', it', rt')"
      by (simp add: Let_def)
    from Cons.IH[OF this _ Cons.prems(3)] Cons.prems(2) show ?thesis
      by (simp add: less_Suc_eq)
  qed
qed

lemma removeTrackIfIncompatible_length:
  assumes "removeTrackIfIncompatible ext V vtx seed fs removed geo = Inr (ok, seed', removed')"
  shows "if ok then Suc (length seed') = length seed else seed' = seed \<and> removed' = removed"
proof -
  from assms obtain m it rt where
    mc: "maxCompLoop vtx seed fs (trackLinks (vtxInfoMap fs vtx)) (0, None, nullptr) = Inr (m, it, rt)"
    by (auto simp: removeTrackIfIncompatible_def split: sum.splits)
  show ?thesis
  proof (cases it)
    case (Some i)
    from maxCompLoop_index[OF mc _ Some] have "i < length seed" by simp
    with assms mc Some show ?thesis
      by (auto simp: removeTrackIfIncompatible_def length_eraseAt)
  next
    case None
    obtain d it2 rt2 where
      sd: "smallestDzLoop ext geo (position V eZ) seed 0 (DBL_MAX, None, rt) = (d, it2, rt2)"
      by (cases "smallestDzLoop ext geo (position V eZ) seed 0 (DBL_MAX, None, rt)") auto
    show ?thesis
    proof (cases it2)
      case (Some k)
      from smallestDzLoop_index[OF sd _ Some] have "k < length seed" by simp
      with assms mc None sd Some show ?thesis
        by (auto simp: removeTrackIfIncompatible_def length_eraseAt split: if_splits)
    next
      case n: None
      with assms mc None sd show ?thesis
        by (auto simp: removeTrackIfIncompatible_def split: if_splits)
    qed
  qed
qed

lemma deleteLastVertex_ptrs:
  "deleteLastVertex ext v av avp h opts = Inr (av', avp', h') \<Longrightarrow>
   av' = butlast av \<and> avp' = butlast avp"
  by (cases h) (auto simp: Let_def split: sum.splits if_splits)

lemma evaluateCandidate_Continue:
  assumes "evaluateCandidate ext cfg opts vtx s = Continue s'"
  shows "length (seedTracks s') < length (seedTracks s) \<and>
         (allVerticesPtr s' = allVerticesPtr s \<or> allVerticesPtr s' = butlast (allVerticesPtr s))"
proof -
  from assms obtain n g where
    chk: "checkVertexAndCompatibleTracks cfg vtx (seedTracks s) (snd (heap s))
            (useConstraintInFit opts) = Inr (n, g)"
    by (auto simp: evaluateCandidate_def split: sum.splits)
  show ?thesis
  proof (cases "0 < n")
    case True
    with assms chk obtain sd rm where
      rc: "removeCompatibleTracksFromSeedTracks cfg vtx (seedTracks s) (snd (heap s))
             (removedSeedTracks s) = Inr (sd, rm)"
      by (auto simp: evaluateCandidate_def split: sum.splits)
    from checkLoop_counted[OF chk[unfolded checkVertexAndCompatibleTracks_def] True]
      removeCompatibleLoop_shrinks[OF rc[unfolded removeCompatibleTracksFromSeedTracks_def]]
    have "length sd < length (seedTracks s)" by blast
    with assms chk True rc show ?thesis
      by (auto simp: evaluateCandidate_def Let_def popCandidate_def
          split: sum.splits if_splits dest: deleteLastVertex_ptrs)
  next
    case False
    with assms chk obtain ok sd rm where
      rt: "removeTrackIfIncompatible ext (fst (heap s) vtx) vtx (seedTracks s) (snd (heap s))
             (removedSeedTracks s) (geoContext opts) = Inr (ok, sd, rm)"
      by (auto simp: evaluateCandidate_def split: sum.splits)
    from assms chk False rt have ok by (auto simp: evaluateCandidate_def Let_def split: if_splits)
    with removeTrackIfIncompatible_length[OF rt] have "length sd < length (seedTracks s)" by simp
    with assms chk False rt \<open>ok\<close> show ?thesis
      by (auto simp: evaluateCandidate_def Let_def popCandidate_def
          split: sum.splits if_splits dest: deleteLastVertex_ptrs)
  qed
qed

lemma evaluateCandidate_Break:
  "evaluateCandidate ext cfg opts vtx s = Break s' \<Longrightarrow>
   allVerticesPtr s' = butlast (allVerticesPtr s) \<and> allVertices s' = butlast (allVertices s)"
  by (auto simp: evaluateCandidate_def Let_def popCandidate_def
      split: sum.splits if_splits prod.splits)

lemma loopBody_Continue:
  assumes "loopBody ext cfg orig opts s = Continue s'"
  shows "length (seedTracks s') < length (seedTracks s) \<and>
         length (allVerticesPtr s) \<le> length (allVerticesPtr s')"
  using assms
  by (auto simp: loopBody_def Let_def popCandidate_def
      split: prod.splits sum.splits if_splits dest!: evaluateCandidate_Continue)

lemma loopBody_Break:
  assumes "loopBody ext cfg orig opts s = Break s'"
  shows "allVerticesPtr s' = allVerticesPtr s \<and> allVertices s' = allVertices s"
  using assms
  by (auto simp: loopBody_def Let_def popCandidate_def
      split: prod.splits sum.splits if_splits dest!: evaluateCandidate_Break)

lemma find_loop_unfold:
  "find_loop ext cfg orig opts it s =
     (if seedTracks s \<noteq> [] \<and> it < maxIterations cfg then
        (case loopBody ext cfg orig opts s of
           Continue s1 \<Rightarrow> find_loop ext cfg orig opts (it + 1) s1
         | Break s1 \<Rightarrow> (it, s1, None)
         | Return e \<Rightarrow> (it, s, Some e))
      else (it, s, None))"
  by (subst find_loop.simps) auto

lemma find_loop_stop:
  "seedTracks s = [] \<or> \<not> it < maxIterations cfg \<Longrightarrow>
   find_loop ext cfg orig opts it s = (it, s, None)"
  by (subst find_loop_unfold) auto

lemma find_loop_step:
  "seedTracks s \<noteq> [] \<Longrightarrow> it < maxIterations cfg \<Longrightarrow>
   find_loop ext cfg orig opts it s =
     (case loopBody ext cfg orig opts s of
        Continue s1 \<Rightarrow> find_loop ext cfg orig opts (it + 1) s1
      | Break s1 \<Rightarrow> (it, s1, None)
      | Return e \<Rightarrow> (it, s, Some e))"
  by (subst find_loop_unfold) auto

lemma find_loop_iterations:
  "fst (find_loop ext cfg orig opts it s) \<le> it + int (length (seedTracks s))"
proof (induction ext cfg orig opts it s rule: find_loop.induct)
  case (1 ext cfg orig opts it s)
  show ?case
  proof (cases "((addSingleTrackVertices cfg \<and> seedTracks s \<noteq> []) \<or>
          (\<not> addSingleTrackVertices cfg \<and> seedTracks s \<noteq> [])) \<and> it < maxIterations cfg")
    case False
    then have "seedTracks s = [] \<or> \<not> it < maxIterations cfg" by auto
    from find_loop_stop[OF this] show ?thesis by simp
  next
    case True
    then have c: "seedTracks s \<noteq> []" "it < maxIterations cfg" by auto
    note st = find_loop_step[OF c, of ext orig opts]
    show ?thesis
    proof (cases "loopBody ext cfg orig opts s")
      case (Continue s1)
      from "1.IH"[OF True Continue] loopBody_Continue[OF Continue] Continue
      show ?thesis by (simp add: st)
    next
      case (Break s1)
      then show ?thesis by (simp add: st)
    next
      case (Return e)
      then show ?thesis by (simp add: st)
    qed
  qed
qed

lemma find_loop_mono:
  "find_loop ext cfg orig opts it s = (it', s', None) \<Longrightarrow>
   length (allVerticesPtr s) \<le> length (allVerticesPtr s')"
proof (induction ext cfg orig opts it s rule: find_loop.induct)
  case (1 ext cfg orig opts it s)
  show ?case
  proof (cases "((addSingleTrackVertices cfg \<and> seedTracks s \<noteq> []) \<or>
          (\<not> addSingleTrackVertices cfg \<and> seedTracks s \<noteq> [])) \<and> it < maxIterations cfg")
    case False
    then have "seedTracks s = [] \<or> \<not> it < maxIterations cfg" by auto
    from find_loop_stop[OF this, of ext orig opts] "1.prems" show ?thesis by simp
  next
    case True
    then have c: "seedTracks s \<noteq> []" "it < maxIterations cfg" by auto
    note st = find_loop_step[OF c, of ext orig opts]
    show ?thesis
    proof (cases "loopBody ext cfg orig opts s")
      case (Continue s1)
      with "1.prems" have "find_loop ext cfg orig opts (it + 1) s1 = (it', s', None)"
        by (simp add: st)
      from "1.IH"[OF True Continue this] loopBody_Continue[OF Continue] show ?thesis by simp
    next
      case (Break s1)
      with "1.prems" have "s' = s1" by (simp add: st)
      with loopBody_Break[OF Break] show ?thesis by simp
    next
      case (Return e)
      with "1.prems" show ?thesis by (simp add: st)
    qed
  qed
qed

lemma find_loop_fewer_iterations:
  assumes "m \<le> n"
  shows "find_loop ext (cfg\<lparr>maxIterations := n\<rparr>) orig opts it s = (itn, sn, None) \<Longrightarrow>
         find_loop ext (cfg\<lparr>maxIterations := m\<rparr>) orig opts it s = (itm, sm, errm) \<Longrightarrow>
         errm = None \<and> length (allVerticesPtr sm) \<le> length (allVerticesPtr sn)"
proof (induction ext "cfg\<lparr>maxIterations := m\<rparr>" orig opts it s rule: find_loop.induct)
  case (1 ext orig opts it s)
  show ?case
  proof (cases "seedTracks s \<noteq> [] \<and> it < m")
    case False
    then have "seedTracks s = [] \<or> \<not> it < maxIterations (cfg\<lparr>maxIterations := m\<rparr>)" by auto
    from find_loop_stop[OF this, of ext orig opts] "1.prems"(2)
    have sm: "sm = s \<and> errm = None" by simp
    from find_loop_mono[OF "1.prems"(1)] sm show ?thesis by simp
  next
    case True
    then have cm: "seedTracks s \<noteq> []" "it < maxIterations (cfg\<lparr>maxIterations := m\<rparr>)"
      by simp_all
    from True assms have cn: "seedTracks s \<noteq> []" "it < maxIterations (cfg\<lparr>maxIterations := n\<rparr>)"
      by simp_all
    note stm = find_loop_step[OF cm, of ext orig opts, unfolded loopBody_maxIterations]
    note stn = find_loop_step[OF cn, of ext orig opts, unfolded loopBody_maxIterations]
    show ?thesis
    proof (cases "loopBody ext cfg orig opts s")
      case (Continue s1)
      from "1.prems"(1) Continue have
        n1: "find_loop ext (cfg\<lparr>maxIterations := n\<rparr>) orig opts (it + 1) s1 = (itn, sn, None)"
        by (simp add: stn)
      from "1.prems"(2) Continue have
        m1: "find_loop ext (cfg\<lparr>maxIterations := m\<rparr>) orig opts (it + 1) s1 = (itm, sm, errm)"
        by (simp add: stm)
      have c: "((addSingleTrackVertices (cfg\<lparr>maxIterations := m\<rparr>) \<and> seedTracks s \<noteq> []) \<or>
          (\<not> addSingleTrackVertices (cfg\<lparr>maxIterations := m\<rparr>) \<and> seedTracks s \<noteq> [])) \<and>
          it < maxIterations (cfg\<lparr>maxIterations := m\<rparr>)"
        using True by simp
      have l: "loopBody ext (cfg\<lparr>maxIterations := m\<rparr>) orig opts s = Continue s1"
        using Continue by (simp add: loopBody_maxIterations)
      from "1.hyps"[OF c l n1 m1] show ?thesis .
    next
      case (Break s1)
      from "1.prems"(1) Break have "sn = s1" by (simp add: stn)
      moreover from "1.prems"(2) Break have "sm = s1 \<and> errm = None" by (simp add: stm)
      ultimately show ?thesis by simp
    next
      case (Return e)
      from "1.prems"(1) Return have False by (simp add: stn)
      then show ?thesis ..
    qed
  qed
qed

lemma getVertexOutputList_length:
  "getVertexOutputList ptrs h = Inr vs \<Longrightarrow> length vs = length ptrs"
proof (induction ptrs arbitrary: vs)
  case Nil
  then show ?case by simp
next
  case (Cons v ptrs)
  then show ?case by (cases h) (auto split: sum.splits)
qed

lemma getVertexOutputList_cong:
  "\<forall>v\<in>set ptrs. vertices v = vertices' v \<Longrightarrow>
   getVertexOutputList ptrs (vertices, fs) = getVertexOutputList ptrs (vertices', fs)"
  by (induction ptrs) (auto split: sum.splits)

text \<open>
  C8. \<^verbatim>\<open>find\<close> on an empty list of tracks returns the error \<^verbatim>\<open>EmptyInput\<close>: no vertices,
  and the loop is not entered.
\<close>

theorem find_empty_input:
  "find_AMVF ext cfg [] opts memory = Inl EmptyInput"
  by (simp add: find_AMVF_def)

text \<open>A run of the finder on the example collaborators, evaluated step by step.\<close>

lemma exampleExt_simps:
  "needsRemovedTracks exampleExt = False"
  "newSeedFinderState exampleExt = 0"
  "seedFinder_find exampleExt trks opts n =
     (if n = 0 then Inr [vertexAtZ 20] else Inl (CollaboratorError 1), Suc n)"
  "allocVertex exampleExt live = sum_list live + 7"
  "trackPosition exampleExt trk g i = (if i = 2 then 10 * real trk else 0)"
  "newTrackAtVertex exampleExt = exampleTrackAtVertex"
  "getImpactParameters exampleExt trk v g mf u =
     Inr \<lparr>d0 = 3, z0 = 4, sigmaD0 = 1, sigmaZ0 = 1, deltaT = Some 12, sigmaDeltaT = Some 1\<rparr>"
  "newFitterState exampleExt mf = emptyFitterState"
  "addVertexToMultiMap exampleExt fs vtx = fs"
  "removeVertexFromMultiMap exampleExt fs vtx = fs"
  "removeVertexFromCollection exampleExt fs vtx = Inr fs"
  "addVtxToFit exampleExt h vtx opts = Inr h"
  "fit exampleExt h opts = Inr h"
  "dadd exampleExt x y = x + y"
  "dsub exampleExt x y = x - y"
  "dmul exampleExt x y = x * y"
  "ddiv exampleExt x y = x / y"
  "dpow2 exampleExt x = x ^ 2"
  "dsqrt exampleExt x = sqrt x"
  by (simp_all add: exampleExt_def)

lemma exampleConfig_simps:
  "maxIterations exampleConfig = 100"
  "addSingleTrackVertices exampleConfig = True"
  "doRealMultiVertex exampleConfig = True"
  "useSeedConstraint exampleConfig = True"
  "useVertexCovForIPEstimation exampleConfig = False"
  "useTime exampleConfig = False"
  "tracksMaxZinterval exampleConfig = 3"
  "tracksMaxSignificance exampleConfig = 10"
  "maxVertexChi2 exampleConfig = 18"
  "useFastCompatibility exampleConfig = True"
  "maximumVertexContamination exampleConfig = 1 / 2"
  "do3dSplitting exampleConfig = False"
  "maxMergeVertexSignificance exampleConfig = 3"
  by (simp_all add: exampleConfig_def)

lemma exampleOptions_simps:
  "constraint exampleOptions = zeroVertex"
  "useConstraintInFit exampleOptions = True"
  "geoContext exampleOptions = 0"
  "magFieldContext exampleOptions = 0"
  "constraint breakOptions = vertexAtZ 20"
  "useConstraintInFit breakOptions = True"
  "geoContext breakOptions = 0"
  "magFieldContext breakOptions = 0"
  by (simp_all add: exampleOptions_def breakOptions_def)

lemma example_getIPSignificance:
  "getIPSignificance exampleExt exampleConfig trk v exampleOptions = Inr (Some 5)"
  by (simp add: getIPSignificance_def exampleExt_simps exampleConfig_simps chi2TimeOf_def
      std_sqrt_def)

lemma example_doSeeding:
  "doSeeding exampleExt exampleConfig trks zeroVertex exampleOptions 0 removed =
     (Inr (vertexAtZ 20, vertexAtZ 20), Suc 0)"
  by (simp add: doSeeding_def exampleExt_simps exampleConfig_simps exampleOptions_simps
      setConstraintAfterSeeding_def Let_def)
     (simp add: vertexAtZ_def zeroVertex_def)

lemma example_canPrepare:
  "case canPrepareVertexForFit exampleExt exampleConfig [2, 3] [2, 3] 7 (vertexAtZ 20)
          ((\<lambda>v. zeroVertex)(7 := vertexAtZ 20), emptyFitterState) exampleOptions of
     Inl e \<Rightarrow> False
   | Inr (prep, (vertices, fs)) \<Rightarrow> prep \<and> vertices 7 = vertexAtZ 20 \<and>
       trackLinks (vtxInfoMap fs 7) = [2] \<and>
       tracksAtVerticesMap fs (2, 7) = Some (exampleTrackAtVertex 2)"
  by (simp add: example_getIPSignificance exampleExt_simps exampleConfig_simps Let_def
      exampleOptions_simps position_def eZ_def emplace_def newVertexInfo_def)
     (simp add: vertexAtZ_def emptyFitterState_def)

lemma example_first_iteration:
  "\<exists>s1. loopBody exampleExt exampleConfig [2, 3] exampleOptions
           (initialLoopState exampleExt [2, 3] exampleOptions (\<lambda>v. zeroVertex)) = Continue s1 \<and>
        seedTracks s1 = [3] \<and> allVerticesPtr s1 = [7] \<and> seedFinderState s1 = Suc 0 \<and>
        nReturnedVertices (getVertexOutputList (allVerticesPtr s1) (heap s1)) = 1"
proof -
  from example_canPrepare obtain vertices fs where
    cp: "canPrepareVertexForFit exampleExt exampleConfig [2, 3] [2, 3] 7 (vertexAtZ 20)
          ((\<lambda>v. zeroVertex)(7 := vertexAtZ 20), emptyFitterState) exampleOptions =
         Inr (True, (vertices, fs))"
    and fs: "trackLinks (vtxInfoMap fs 7) = [2]"
      "tracksAtVerticesMap fs (2, 7) = Some (exampleTrackAtVertex 2)"
    by (auto split: sum.splits prod.splits)
  have z: "fullPosition (vertexAtZ 20) 2 \<noteq> fullPosition zeroVertex 2"
    by (simp add: vertexAtZ_def zeroVertex_def)
  have ev: "evaluateCandidate exampleExt exampleConfig exampleOptions 7
              \<lparr>seedTracks = [2, 3], removedSeedTracks = [], allVertices = [7],
               allVerticesPtr = [7], heap = (vertices, fs), seedFinderState = Suc 0\<rparr> =
            Continue \<lparr>seedTracks = [3], removedSeedTracks = [2], allVertices = [7],
               allVerticesPtr = [7], heap = (vertices, fs), seedFinderState = Suc 0\<rparr>"
    by (simp add: evaluateCandidate_def checkVertexAndCompatibleTracks_def fs map_at_def
        isCompatible_def exampleConfig_simps exampleOptions_simps exampleTrackAtVertex_def
        exampleExt_simps
        removeCompatibleTracksFromSeedTracks_def eraseAt_def keepNewVertex_def
        contamination_def isMergedVertex_def)
  have out: "nReturnedVertices (getVertexOutputList [7] (vertices, fs)) = 1"
    by (simp add: fs map_at_def nReturnedVertices_def)
  have "loopBody exampleExt exampleConfig [2, 3] exampleOptions
           (initialLoopState exampleExt [2, 3] exampleOptions (\<lambda>v. zeroVertex)) =
        Continue \<lparr>seedTracks = [3], removedSeedTracks = [2], allVertices = [7],
               allVerticesPtr = [7], heap = (vertices, fs), seedFinderState = Suc 0\<rparr>"
    by (simp add: loopBody_def initialLoopState_def exampleExt_simps exampleConfig_simps
        exampleOptions_simps example_doSeeding position_def eZ_def z cp ev
        del: canPrepareVertexForFit.simps)
  with out show ?thesis by simp
qed

lemma example_second_iteration:
  "seedFinderState s = Suc k \<Longrightarrow>
   loopBody exampleExt exampleConfig orig exampleOptions s = Return (CollaboratorError 1)"
  by (simp add: loopBody_def doSeeding_def exampleExt_simps Let_def)

lemma example_run_one_iteration:
  "\<exists>s1. find_loop exampleExt (exampleConfig\<lparr>maxIterations := 1\<rparr>) [2, 3] exampleOptions 0
           (initialLoopState exampleExt [2, 3] exampleOptions (\<lambda>v. zeroVertex)) = (1, s1, None) \<and>
        nReturnedVertices (getVertexOutputList (allVerticesPtr s1) (heap s1)) = 1"
proof -
  let ?s0 = "initialLoopState exampleExt [2, 3] exampleOptions (\<lambda>v. zeroVertex)"
  let ?cfg = "exampleConfig\<lparr>maxIterations := 1\<rparr>"
  from example_first_iteration obtain s1 where
    lb: "loopBody exampleExt exampleConfig [2, 3] exampleOptions ?s0 = Continue s1"
    and s1: "seedTracks s1 = [3]" "seedFinderState s1 = Suc 0"
      "nReturnedVertices (getVertexOutputList (allVerticesPtr s1) (heap s1)) = 1"
    by blast
  have a: "seedTracks ?s0 \<noteq> []" by (simp add: initialLoopState_def)
  have b: "0 < maxIterations ?cfg" by simp
  have "find_loop exampleExt ?cfg [2, 3] exampleOptions 0 ?s0 =
        find_loop exampleExt ?cfg [2, 3] exampleOptions 1 s1"
    using find_loop_step[OF a b, of exampleExt "[2, 3]" exampleOptions] lb
    by (simp add: loopBody_maxIterations)
  moreover have "find_loop exampleExt ?cfg [2, 3] exampleOptions 1 s1 = (1, s1, None)"
    by (rule find_loop_stop) simp
  ultimately show ?thesis using s1(3) by simp
qed

lemma example_run_two_iterations:
  "\<exists>s1. find_loop exampleExt (exampleConfig\<lparr>maxIterations := 2\<rparr>) [2, 3] exampleOptions 0
           (initialLoopState exampleExt [2, 3] exampleOptions (\<lambda>v. zeroVertex)) =
         (1, s1, Some (CollaboratorError 1))"
proof -
  let ?s0 = "initialLoopState exampleExt [2, 3] exampleOptions (\<lambda>v. zeroVertex)"
  let ?cfg = "exampleConfig\<lparr>maxIterations := 2\<rparr>"
  from example_first_iteration obtain s1 where
    lb: "loopBody exampleExt exampleConfig [2, 3] exampleOptions ?s0 = Continue s1"
    and s1: "seedTracks s1 = [3]" "seedFinderState s1 = Suc 0"
    by blast
  have a: "seedTracks ?s0 \<noteq> []" by (simp add: initialLoopState_def)
  have b: "0 < maxIterations ?cfg" by simp
  have a1: "seedTracks s1 \<noteq> []" using s1 by simp
  have b1: "1 < maxIterations ?cfg" by simp
  have "find_loop exampleExt ?cfg [2, 3] exampleOptions 0 ?s0 =
        find_loop exampleExt ?cfg [2, 3] exampleOptions 1 s1"
    using find_loop_step[OF a b, of exampleExt "[2, 3]" exampleOptions] lb
    by (simp add: loopBody_maxIterations)
  moreover have "find_loop exampleExt ?cfg [2, 3] exampleOptions 1 s1 =
                 (1, s1, Some (CollaboratorError 1))"
    using find_loop_step[OF a1 b1, of exampleExt "[2, 3]" exampleOptions]
      example_second_iteration[OF s1(2), of "[2, 3]"]
    by (simp add: loopBody_maxIterations)
  ultimately show ?thesis by simp
qed

text \<open>
  C9, as stated, fails: with \<^verbatim>\<open>maxIterations = 1\<close> the example run returns one vertex;
  with \<^verbatim>\<open>maxIterations = 2\<close> the seed finder fails in the second iteration and
  \<^verbatim>\<open>find\<close> returns its error, that is no vertex at all.
\<close>

theorem fewer_iterations_error_counterexample:
  "(1 :: int) \<le> 2 \<and>
   nReturnedVertices (find_AMVF exampleExt (exampleConfig\<lparr>maxIterations := 1\<rparr>) [2, 3]
     exampleOptions (\<lambda>v. zeroVertex)) = 1 \<and>
   nReturnedVertices (find_AMVF exampleExt (exampleConfig\<lparr>maxIterations := 2\<rparr>) [2, 3]
     exampleOptions (\<lambda>v. zeroVertex)) = 0"
proof -
  from example_run_one_iteration obtain s1 where
    "find_loop exampleExt (exampleConfig\<lparr>maxIterations := 1\<rparr>) [2, 3] exampleOptions 0
       (initialLoopState exampleExt [2, 3] exampleOptions (\<lambda>v. zeroVertex)) = (1, s1, None)"
    "nReturnedVertices (getVertexOutputList (allVerticesPtr s1) (heap s1)) = 1"
    by blast
  then have one: "nReturnedVertices (find_AMVF exampleExt (exampleConfig\<lparr>maxIterations := 1\<rparr>)
     [2, 3] exampleOptions (\<lambda>v. zeroVertex)) = 1"
    by (simp add: find_AMVF_def)
  from example_run_two_iterations obtain s2 where
    "find_loop exampleExt (exampleConfig\<lparr>maxIterations := 2\<rparr>) [2, 3] exampleOptions 0
       (initialLoopState exampleExt [2, 3] exampleOptions (\<lambda>v. zeroVertex)) =
     (1, s2, Some (CollaboratorError 1))"
    by blast
  then have two: "nReturnedVertices (find_AMVF exampleExt (exampleConfig\<lparr>maxIterations := 2\<rparr>)
     [2, 3] exampleOptions (\<lambda>v. zeroVertex)) = 0"
    by (simp add: find_AMVF_def nReturnedVertices_def)
  from one two show ?thesis by simp
qed

text \<open>
  C9, amended. For two configurations that differ in \<^verbatim>\<open>maxIterations\<close> only, and the same
  collaborators and input, whenever the run with the larger \<^verbatim>\<open>maxIterations\<close> returns
  vertices (and not an error), the run with the smaller one returns at most as many.
\<close>

theorem fewer_iterations_fewer_vertices:
  assumes "m \<le> n"
    and "find_AMVF ext (cfg\<lparr>maxIterations := n\<rparr>) allTracks opts memory = Inr vs"
  shows "nReturnedVertices (find_AMVF ext (cfg\<lparr>maxIterations := m\<rparr>) allTracks opts memory)
           \<le> length vs"
proof -
  let ?s0 = "initialLoopState ext allTracks opts memory"
  from assms(2) have ne: "allTracks \<noteq> []" by (auto simp: find_AMVF_def split: if_splits)
  obtain itn sn errn where
    rn: "find_loop ext (cfg\<lparr>maxIterations := n\<rparr>) allTracks opts 0 ?s0 = (itn, sn, errn)"
    by (cases "find_loop ext (cfg\<lparr>maxIterations := n\<rparr>) allTracks opts 0 ?s0") auto
  obtain itm sm errm where
    rm: "find_loop ext (cfg\<lparr>maxIterations := m\<rparr>) allTracks opts 0 ?s0 = (itm, sm, errm)"
    by (cases "find_loop ext (cfg\<lparr>maxIterations := m\<rparr>) allTracks opts 0 ?s0") auto
  from assms(2) ne rn have en: "errn = None"
    and on: "getVertexOutputList (allVerticesPtr sn) (heap sn) = Inr vs"
    by (auto simp: find_AMVF_def split: option.splits)
  from find_loop_fewer_iterations[OF assms(1) rn[unfolded en] rm]
  have em: "errm = None" and le: "length (allVerticesPtr sm) \<le> length (allVerticesPtr sn)"
    by simp_all
  have fm: "find_AMVF ext (cfg\<lparr>maxIterations := m\<rparr>) allTracks opts memory =
            getVertexOutputList (allVerticesPtr sm) (heap sm)"
    using ne rm em by (simp add: find_AMVF_def)
  show ?thesis
  proof (cases "getVertexOutputList (allVerticesPtr sm) (heap sm)")
    case (Inl e)
    with fm show ?thesis by (simp add: nReturnedVertices_def)
  next
    case (Inr vs')
    from getVertexOutputList_length[OF Inr] getVertexOutputList_length[OF on] le fm Inr
    show ?thesis by (simp add: nReturnedVertices_def)
  qed
qed

theorem fewer_iterations_fewer_vertices_witness:
  "(0 :: int) \<le> 1 \<and>
   (\<exists>vs. find_AMVF exampleExt (exampleConfig\<lparr>maxIterations := 1\<rparr>) [2, 3] exampleOptions
           (\<lambda>v. zeroVertex) = Inr vs \<and>
         nReturnedVertices (find_AMVF exampleExt (exampleConfig\<lparr>maxIterations := 0\<rparr>) [2, 3]
           exampleOptions (\<lambda>v. zeroVertex)) \<le> length vs)"
proof -
  from example_run_one_iteration obtain s1 where
    "find_loop exampleExt (exampleConfig\<lparr>maxIterations := 1\<rparr>) [2, 3] exampleOptions 0
       (initialLoopState exampleExt [2, 3] exampleOptions (\<lambda>v. zeroVertex)) = (1, s1, None)"
    "nReturnedVertices (getVertexOutputList (allVerticesPtr s1) (heap s1)) = 1"
    by blast
  then obtain vs where vs: "find_AMVF exampleExt (exampleConfig\<lparr>maxIterations := 1\<rparr>) [2, 3]
      exampleOptions (\<lambda>v. zeroVertex) = Inr vs"
    by (cases "getVertexOutputList (allVerticesPtr s1) (heap s1)")
       (auto simp: find_AMVF_def nReturnedVertices_def)
  have le: "(0 :: int) \<le> 1" by simp
  from fewer_iterations_fewer_vertices[of 0 1 exampleExt exampleConfig "[2, 3]" exampleOptions
      "\<lambda>v. zeroVertex" vs, OF le vs[simplified]] vs
  show ?thesis by simp
qed

text \<open>
  C7. In an iteration of the loop of \<^verbatim>\<open>find\<close> (seed tracks left, counter below
  \<^verbatim>\<open>maxIterations\<close>), if the seed finder returns a vertex whose z is equal to the z of the
  constraint of the vertexing options, the loop ends at once, without an error and with
  the counter unchanged: the candidate is popped again, the fitter state is as before (the
  candidate is neither prepared nor fitted), the seed tracks and the accepted vertices
  are as before, and the output is that of the vertices accepted before. The address of
  the new vertex is taken to differ from those of the accepted vertices.
\<close>

theorem seed_at_constraint_z_breaks:
  assumes "seedTracks s \<noteq> []" and "iteration < maxIterations cfg"
    and "seedFinder_find ext (seedTracks s) opts
           (if needsRemovedTracks ext
            then setTracksToRemove ext (seedFinderState s) (removedSeedTracks s)
            else seedFinderState s) = (Inr seedResult, sfs)"
    and "seedResult \<noteq> []"
    and "position (last seedResult) eZ = position (constraint opts) eZ"
    and "allocVertex ext (allVertices s) \<notin> set (allVerticesPtr s)"
  shows "\<exists>s'. find_loop ext cfg orig opts iteration s = (iteration, s', None) \<and>
           allVertices s' = allVertices s \<and> allVerticesPtr s' = allVerticesPtr s \<and>
           seedTracks s' = seedTracks s \<and> snd (heap s') = snd (heap s) \<and>
           getVertexOutputList (allVerticesPtr s') (heap s') =
             getVertexOutputList (allVerticesPtr s) (heap s)"
proof -
  define v where "v = allocVertex ext (allVertices s)"
  obtain cc sv where sc: "setConstraintAfterSeeding cfg (constraint opts)
      (useConstraintInFit opts) (last seedResult) = (cc, sv)"
    by (cases "setConstraintAfterSeeding cfg (constraint opts)
      (useConstraintInFit opts) (last seedResult)") auto
  then have pos: "fullPosition sv = fullPosition (last seedResult)"
    by (auto simp: setConstraintAfterSeeding_def split: if_splits)
  have ds: "doSeeding ext cfg (seedTracks s) (constraint opts) opts (seedFinderState s)
              (removedSeedTracks s) = (Inr (sv, cc), sfs)"
    using assms(3,4) sc by (simp add: doSeeding_def Let_def)
  define s' where "s' = popCandidate (s\<lparr>seedFinderState := sfs,
       allVertices := allVertices s @ [v], allVerticesPtr := allVerticesPtr s @ [v],
       heap := ((fst (heap s))(v := sv), snd (heap s))\<rparr>)"
  have lb: "loopBody ext cfg orig opts s = Break s'"
    using ds pos assms(5) by (simp add: loopBody_def Let_def s'_def v_def position_def)
  have fl: "find_loop ext cfg orig opts iteration s = (iteration, s', None)"
    using find_loop_step[OF assms(1,2), of ext orig opts] lb by simp
  have sel: "allVertices s' = allVertices s" "allVerticesPtr s' = allVerticesPtr s"
    "seedTracks s' = seedTracks s" "snd (heap s') = snd (heap s)"
    "fst (heap s') = (fst (heap s))(v := sv)"
    by (simp_all add: s'_def popCandidate_def)
  have "getVertexOutputList (allVerticesPtr s) ((fst (heap s))(v := sv), snd (heap s)) =
        getVertexOutputList (allVerticesPtr s) (fst (heap s), snd (heap s))"
    by (rule getVertexOutputList_cong) (use assms(6) in \<open>auto simp: v_def\<close>)
  then have "getVertexOutputList (allVerticesPtr s') (heap s') =
             getVertexOutputList (allVerticesPtr s) (heap s)"
    using sel by (metis prod.collapse)
  with fl sel show ?thesis by blast
qed

theorem seed_at_constraint_z_breaks_witness:
  "seedTracks (initialLoopState exampleExt [2, 3] breakOptions (\<lambda>v. zeroVertex)) \<noteq> [] \<and>
   0 < maxIterations exampleConfig \<and>
   position (vertexAtZ 20) eZ = position (constraint breakOptions) eZ \<and>
   (\<exists>s'. find_loop exampleExt exampleConfig [2, 3] breakOptions 0
            (initialLoopState exampleExt [2, 3] breakOptions (\<lambda>v. zeroVertex)) = (0, s', None) \<and>
         allVerticesPtr s' = [] \<and> seedTracks s' = [2, 3])"
proof -
  let ?s0 = "initialLoopState exampleExt [2, 3] breakOptions (\<lambda>v. zeroVertex)"
  have a: "seedTracks ?s0 \<noteq> []" by (simp add: initialLoopState_def)
  have b: "0 < maxIterations exampleConfig" by (simp add: exampleConfig_simps)
  have c: "seedFinder_find exampleExt (seedTracks ?s0) breakOptions
           (if needsRemovedTracks exampleExt
            then setTracksToRemove exampleExt (seedFinderState ?s0) (removedSeedTracks ?s0)
            else seedFinderState ?s0) = (Inr [vertexAtZ 20], Suc 0)"
    by (simp add: exampleExt_simps initialLoopState_def)
  have d: "[vertexAtZ 20] \<noteq> []" by simp
  have e: "position (last [vertexAtZ 20]) eZ = position (constraint breakOptions) eZ"
    by (simp add: exampleOptions_simps)
  have f: "allocVertex exampleExt (allVertices ?s0) \<notin> set (allVerticesPtr ?s0)"
    by (simp add: initialLoopState_def)
  from seed_at_constraint_z_breaks[OF a b c d e f, of "[2, 3]"] a b e
  show ?thesis by (auto simp: initialLoopState_def)
qed

text \<open>
  C10. When \<^verbatim>\<open>checkVertexAndCompatibleTracks\<close> counts a track,
  \<^verbatim>\<open>removeCompatibleTracksFromSeedTracks\<close> erases at least one seed track;
  \<^verbatim>\<open>removeTrackIfIncompatible\<close> erases exactly one seed track when it returns true and
  none when it returns false (and the driver breaks); an iteration of the loop that
  reaches its end leaves strictly fewer seed tracks; and the counter of the loop, which
  counts the iterations that reach their end, is at most the number of input tracks
  when the loop is left, whatever \<^verbatim>\<open>maxIterations\<close> is.
\<close>

theorem seed_tracks_decrease:
  "(checkVertexAndCompatibleTracks cfg vtx seed fs useC = Inr (n, good) \<and> 0 < n \<and>
    removeCompatibleTracksFromSeedTracks cfg vtx seed fs removed = Inr (seed1, removed1) \<longrightarrow>
      length seed1 < length seed) \<and>
   (removeTrackIfIncompatible ext V vtx seed fs removed geo = Inr (ok, seed2, removed2) \<longrightarrow>
      (if ok then Suc (length seed2) = length seed else seed2 = seed)) \<and>
   (loopBody ext cfg orig opts s = Continue s' \<longrightarrow>
      length (seedTracks s') < length (seedTracks s)) \<and>
   fst (find_loop ext cfg allTracks opts 0 (initialLoopState ext allTracks opts memory))
     \<le> int (length allTracks)"
proof (intro conjI impI)
  assume a: "checkVertexAndCompatibleTracks cfg vtx seed fs useC = Inr (n, good) \<and> 0 < n \<and>
    removeCompatibleTracksFromSeedTracks cfg vtx seed fs removed = Inr (seed1, removed1)"
  then have c: "checkLoop cfg vtx seed fs useC (trackLinks (vtxInfoMap fs vtx)) 0 = Inr (n, good)"
    and r: "removeCompatibleLoop cfg vtx fs (trackLinks (vtxInfoMap fs vtx)) (seed, removed) =
              Inr (seed1, removed1)"
    and n: "0 < n"
    by (simp_all add: checkVertexAndCompatibleTracks_def removeCompatibleTracksFromSeedTracks_def)
  from checkLoop_counted[OF c n] removeCompatibleLoop_shrinks[OF r]
  show "length seed1 < length seed" by blast
next
  assume "removeTrackIfIncompatible ext V vtx seed fs removed geo = Inr (ok, seed2, removed2)"
  from removeTrackIfIncompatible_length[OF this]
  show "if ok then Suc (length seed2) = length seed else seed2 = seed"
    by (simp split: if_splits)
next
  assume "loopBody ext cfg orig opts s = Continue s'"
  from loopBody_Continue[OF this] show "length (seedTracks s') < length (seedTracks s)" by simp
next
  from find_loop_iterations[of ext cfg allTracks opts 0 "initialLoopState ext allTracks opts memory"]
  show "fst (find_loop ext cfg allTracks opts 0 (initialLoopState ext allTracks opts memory))
     \<le> int (length allTracks)"
    by (simp add: initialLoopState_def)
qed

theorem seed_tracks_decrease_witness:
  "\<exists>s1. loopBody exampleExt exampleConfig [2, 3] exampleOptions
           (initialLoopState exampleExt [2, 3] exampleOptions (\<lambda>v. zeroVertex)) = Continue s1 \<and>
        length (seedTracks s1) <
          length (seedTracks (initialLoopState exampleExt [2, 3] exampleOptions (\<lambda>v. zeroVertex)))"
proof -
  from example_first_iteration obtain s1 where
    lb: "loopBody exampleExt exampleConfig [2, 3] exampleOptions
           (initialLoopState exampleExt [2, 3] exampleOptions (\<lambda>v. zeroVertex)) = Continue s1"
    by blast
  from seed_tracks_decrease[of exampleConfig 7 "[]" emptyFitterState False 0 False "[]" "[]" "[]"
      exampleExt zeroVertex 0 False "[]" "[]" "[2, 3]" exampleOptions
      "initialLoopState exampleExt [2, 3] exampleOptions (\<lambda>v. zeroVertex)" s1 "[2, 3]"
      "\<lambda>v. zeroVertex"] lb
  show ?thesis by blast
qed

end
